theory Spec2Isabelle
  imports Main
begin

section \<open>JavaScript values\<close>

text \<open>
  The persistence module of the extension (the first file of \<open>src/unnamed/part_004\<close>)
  stores JSON-like values. Numbers are the integers the module works with (lengths,
  millisecond time stamps, the configured maximum); there is no NaN among them.
  An object is its list of own properties in insertion order.
\<close>

datatype jsval =
    JUndefined
  | JNull
  | JBool bool
  | JNum int
  | JStr string
  | JArr "jsval list"
  | JObj "(string \<times> jsval) list"

datatype error = TypeError | StorageError

text \<open>What \<open>if (v)\<close>, \<open>!v\<close> and \<open>v || w\<close> test.\<close>

fun truthy :: "jsval \<Rightarrow> bool" where
  "truthy JUndefined = False"
| "truthy JNull = False"
| "truthy (JBool b) = b"
| "truthy (JNum n) = (n \<noteq> 0)"
| "truthy (JStr s) = (s \<noteq> [])"
| "truthy (JArr xs) = True"
| "truthy (JObj kvs) = True"

definition js_or :: "jsval \<Rightarrow> jsval \<Rightarrow> jsval" where
  "js_or a b = (if truthy a then a else b)"

definition nullish :: "jsval \<Rightarrow> bool" where
  "nullish v = (v = JUndefined \<or> v = JNull)"

text \<open>
  \<open>v.k\<close> for a receiver that is neither \<open>null\<close> nor \<open>undefined\<close>: an own property of
  an object, the \<open>length\<close> of an array or a string, \<open>undefined\<close> otherwise.
\<close>

fun js_prop :: "jsval \<Rightarrow> string \<Rightarrow> jsval" where
  "js_prop (JObj kvs) k = (case map_of kvs k of None \<Rightarrow> JUndefined | Some v \<Rightarrow> v)"
| "js_prop (JArr xs) k = (if k = ''length'' then JNum (int (length xs)) else JUndefined)"
| "js_prop (JStr s) k = (if k = ''length'' then JNum (int (length s)) else JUndefined)"
| "js_prop v k = JUndefined"

text \<open>Reading a property of \<open>null\<close> or \<open>undefined\<close> throws a TypeError.\<close>

definition get_prop :: "jsval \<Rightarrow> string \<Rightarrow> error + jsval" where
  "get_prop v k = (if nullish v then Inl TypeError else Inr (js_prop v k))"

text \<open>
  \<open>o[k] = v\<close> on a property list, and \<open>setItem\<close> on an ordered key-value store: an
  existing key keeps its place, a new key goes to the end.
\<close>

fun put :: "'k \<Rightarrow> 'v \<Rightarrow> ('k \<times> 'v) list \<Rightarrow> ('k \<times> 'v) list" where
  "put k v [] = [(k, v)]"
| "put k v ((a, b) # ps) = (if a = k then (k, v) # ps else (a, b) # put k v ps)"

text \<open>
  The module is an ES module, hence strict code: assigning a property on a primitive
  throws. A named property stored on an array is not part of the value model; the array
  is left as it is.
\<close>

fun set_prop :: "jsval \<Rightarrow> string \<Rightarrow> jsval \<Rightarrow> error + jsval" where
  "set_prop (JObj kvs) k v = Inr (JObj (put k v kvs))"
| "set_prop (JArr xs) k v = Inr (JArr xs)"
| "set_prop w k v = Inl TypeError"

text \<open>
  The array methods the module calls exist on arrays only; on any other receiver the call
  throws a TypeError.
\<close>

fun as_array :: "jsval \<Rightarrow> error + jsval list" where
  "as_array (JArr xs) = Inr xs"
| "as_array v = Inl TypeError"

text \<open>\<open>filter\<close>, \<open>some\<close> and \<open>findIndex\<close> with a callback that may throw.\<close>

fun js_filter :: "('a \<Rightarrow> error + bool) \<Rightarrow> 'a list \<Rightarrow> error + 'a list" where
  "js_filter p [] = Inr []"
| "js_filter p (x # xs) =
     (case p x of
        Inl e \<Rightarrow> Inl e
      | Inr b \<Rightarrow>
          (case js_filter p xs of
             Inl e \<Rightarrow> Inl e
           | Inr ys \<Rightarrow> Inr (if b then x # ys else ys)))"

fun js_some :: "('a \<Rightarrow> error + bool) \<Rightarrow> 'a list \<Rightarrow> error + bool" where
  "js_some p [] = Inr False"
| "js_some p (x # xs) =
     (case p x of
        Inl e \<Rightarrow> Inl e
      | Inr b \<Rightarrow> (if b then Inr True else js_some p xs))"

text \<open>\<open>findIndex\<close>: \<open>None\<close> is the result \<open>-1\<close>.\<close>

fun js_findIndex :: "('a \<Rightarrow> error + bool) \<Rightarrow> 'a list \<Rightarrow> error + nat option" where
  "js_findIndex p [] = Inr None"
| "js_findIndex p (x # xs) =
     (case p x of
        Inl e \<Rightarrow> Inl e
      | Inr b \<Rightarrow>
          (if b then Inr (Some 0)
           else (case js_findIndex p xs of
                   Inl e \<Rightarrow> Inl e
                 | Inr None \<Rightarrow> Inr None
                 | Inr (Some i) \<Rightarrow> Inr (Some (Suc i)))))"

text \<open>\<open>xs.slice(0, e)\<close>; a negative end counts from the end of the array.\<close>

definition js_slice0 :: "'a list \<Rightarrow> int \<Rightarrow> 'a list" where
  "js_slice0 xs e = (if e < 0 then take (nat (int (length xs) + e)) xs else take (nat e) xs)"

text \<open>The callbacks \<open>c => c.id !== card.id\<close>, \<open>b => b.id === card.id\<close>, \<open>b => b.id !== cardId\<close>.
  Strict equality is modelled as equality of values. That is exact on primitives, which
  is what ids are; the code compares objects and arrays by identity, which a value does
  not carry, so the properties about ids below are stated for primitive ids.\<close>

definition id_differs :: "jsval \<Rightarrow> jsval \<Rightarrow> error + bool" where
  "id_differs crd c =
     (case get_prop c ''id'' of
        Inl e \<Rightarrow> Inl e
      | Inr a \<Rightarrow> (case get_prop crd ''id'' of Inl e \<Rightarrow> Inl e | Inr b \<Rightarrow> Inr (a \<noteq> b)))"

definition id_equals :: "jsval \<Rightarrow> jsval \<Rightarrow> error + bool" where
  "id_equals crd c =
     (case get_prop c ''id'' of
        Inl e \<Rightarrow> Inl e
      | Inr a \<Rightarrow> (case get_prop crd ''id'' of Inl e \<Rightarrow> Inl e | Inr b \<Rightarrow> Inr (a = b)))"

definition id_is_not :: "jsval \<Rightarrow> jsval \<Rightarrow> error + bool" where
  "id_is_not cardId b =
     (case get_prop b ''id'' of Inl e \<Rightarrow> Inl e | Inr a \<Rightarrow> Inr (a \<noteq> cardId))"

section \<open>The state of the module and of its two stores\<close>

text \<open>\<open>memoryCache\<close>, lines 11 to 18.\<close>

record memory_cache =
  persistentSearches :: "(string \<times> jsval) list"
  searchCollapsed :: jsval
  recentlyViewed :: jsval
  importStats :: jsval
  bookmarks :: jsval
  importedCards :: jsval

text \<open>
  The module variables \<open>memoryCache\<close> and \<open>isStorageInitialized\<close>, the localForage store,
  \<open>localStorage\<close> (ordered, since \<open>localStorage.key(i)\<close> enumerates it), whether
  localForage currently throws and whether \<open>localStorage.setItem\<close> does (reading
  \<open>localStorage\<close> does not throw), the durable writes that were started and not awaited,
  and the two readings of the clock, \<open>Date.now()\<close> and \<open>new Date().toISOString()\<close>.
\<close>

record storage =
  memoryCache :: memory_cache
  isStorageInitialized :: bool
  localforage :: "string \<rightharpoonup> jsval"
  localStorage :: "(string \<times> string) list"
  localforage_fails :: bool
  localStorage_fails :: bool
  scheduled :: "(string \<times> jsval) list"
  date_now :: int
  date_iso :: string

definition initial_memoryCache :: memory_cache where
  "initial_memoryCache =
     \<lparr> persistentSearches = [],
       searchCollapsed = JBool False,
       recentlyViewed = JArr [],
       importStats = JObj [(''totalCharacters'', JNum 0), (''totalLorebooks'', JNum 0),
                           (''imports'', JArr []), (''bySource'', JObj []), (''byCreator'', JObj [])],
       bookmarks = JArr [],
       importedCards = JArr [] \<rparr>"

text \<open>A freshly loaded module over two empty, working stores.\<close>

definition fresh_storage :: storage where
  "fresh_storage =
     \<lparr> memoryCache = initial_memoryCache,
       isStorageInitialized = False,
       localforage = Map.empty,
       localStorage = [],
       localforage_fails = False,
       localStorage_fails = False,
       scheduled = [],
       date_now = 1700000000000,
       date_iso = ''2023-11-14T22:13:20.000Z'' \<rparr>"

section \<open>Durable Store Adapter\<close>

text \<open>
  localForage stores \<open>null\<close> for \<open>undefined\<close> and answers \<open>null\<close> for a missing key.
\<close>

definition localforage_setItem :: "string \<Rightarrow> jsval \<Rightarrow> storage \<Rightarrow> error + storage" where
  "localforage_setItem key val s =
     (if localforage_fails s then Inl StorageError
      else Inr (s\<lparr>localforage := (localforage s)(key \<mapsto> (if val = JUndefined then JNull else val))\<rparr>))"

definition localforage_getItem :: "string \<Rightarrow> storage \<Rightarrow> error + jsval" where
  "localforage_getItem key s =
     (if localforage_fails s then Inl StorageError
      else Inr (case localforage s key of None \<Rightarrow> JNull | Some v \<Rightarrow> v))"

definition localStorage_setItem :: "string \<Rightarrow> string \<Rightarrow> storage \<Rightarrow> error + storage" where
  "localStorage_setItem key str s =
     (if localStorage_fails s then Inl StorageError
      else Inr (s\<lparr>localStorage := put key str (localStorage s)\<rparr>))"

text \<open>\<open>localStorage.getItem\<close>: \<open>None\<close> is \<open>null\<close>.\<close>

definition localStorage_getItem :: "string \<Rightarrow> storage \<Rightarrow> string option" where
  "localStorage_getItem key s = map_of (localStorage s) key"

text \<open>
  \<open>idbSet\<close>, lines 21 to 28, awaited. \<open>JSON.stringify\<close> is the parameter \<open>stringify\<close>.
\<close>

definition idbSet :: "(jsval \<Rightarrow> string) \<Rightarrow> string \<Rightarrow> jsval \<Rightarrow> storage \<Rightarrow> error + storage" where
  "idbSet stringify key val s =
     (case localforage_setItem key val s of
        Inr s' \<Rightarrow> Inr s'
      | Inl e \<Rightarrow>
          (case localStorage_setItem key (stringify val) s of
             Inr s' \<Rightarrow> Inr s'
           | Inl e2 \<Rightarrow> Inr s))"

text \<open>\<open>idbGet\<close>, lines 30 to 38.\<close>

definition idbGet :: "string \<Rightarrow> storage \<Rightarrow> error + jsval" where
  "idbGet key s =
     (case localforage_getItem key s of
        Inr v \<Rightarrow> Inr v
      | Inl e \<Rightarrow> Inr JNull)"

text \<open>
  A call \<open>idbSet(key, val)\<close> that is not awaited returns at once; the write is in flight.
  \<open>settle\<close> lets the oldest write in flight run to its end. A write in flight is
  recorded with the value it was called with; the mutations change their arrays in place
  only together with a new write of the same key.
\<close>

definition schedule :: "string \<Rightarrow> jsval \<Rightarrow> storage \<Rightarrow> storage" where
  "schedule key val s = s\<lparr>scheduled := scheduled s @ [(key, val)]\<rparr>"

definition settle :: "(jsval \<Rightarrow> string) \<Rightarrow> storage \<Rightarrow> storage" where
  "settle stringify s =
     (case scheduled s of
        [] \<Rightarrow> s
      | (key, val) # rest \<Rightarrow>
          (case idbSet stringify key val (s\<lparr>scheduled := rest\<rparr>) of
             Inr s' \<Rightarrow> s'
           | Inl e \<Rightarrow> s\<lparr>scheduled := rest\<rparr>))"

section \<open>TTL Response Cache\<close>

text \<open>
  \<open>Date.now() - data.timestamp\<close> needs the time stamp as a number: \<open>None\<close> is NaN.
  Entries are written by \<open>idbSetCachedApi\<close> with a number, and for a number, a boolean
  and \<open>null\<close> the conversion is exact. The code would also convert numeric text and
  short arrays; here every string, array and object is NaN, so the model says nothing
  about entries with such a time stamp.
\<close>

fun to_number :: "jsval \<Rightarrow> int option" where
  "to_number (JNum n) = Some n"
| "to_number (JBool b) = Some (if b then 1 else 0)"
| "to_number JNull = Some 0"
| "to_number v = None"

definition fresh :: "int \<Rightarrow> jsval \<Rightarrow> int \<Rightarrow> bool" where
  "fresh now ts ttlMs = (case to_number ts of None \<Rightarrow> False | Some t \<Rightarrow> now - t < ttlMs)"

text \<open>\<open>idbGetCachedApi\<close>, lines 41 to 47, called with a time to live (the default is one
  hour). It reads the stores and writes nothing.\<close>

definition idbGetCachedApi :: "string \<Rightarrow> int \<Rightarrow> storage \<Rightarrow> error + jsval" where
  "idbGetCachedApi key ttlMs s =
     (case idbGet key s of
        Inl e \<Rightarrow> Inl e
      | Inr data \<Rightarrow>
          (if truthy data \<and> truthy (js_prop data ''timestamp'')
                \<and> fresh (date_now s) (js_prop data ''timestamp'') ttlMs
           then Inr (js_prop data ''payload'')
           else Inr JNull))"

text \<open>\<open>idbSetCachedApi\<close>, lines 49 to 51.\<close>

definition idbSetCachedApi :: "(jsval \<Rightarrow> string) \<Rightarrow> string \<Rightarrow> jsval \<Rightarrow> storage \<Rightarrow> error + storage" where
  "idbSetCachedApi stringify key payload s =
     idbSet stringify key (JObj [(''timestamp'', JNum (date_now s)), (''payload'', payload)]) s"

section \<open>Migration Runner\<close>

definition well_known_keys :: "string list" where
  "well_known_keys =
     [''botBrowser_searchCollapsed'',
      ''botBrowser_recentlyViewed'',
      ''botBrowser_importStats'',
      ''botBrowser_bookmarks'',
      ''botBrowser_importedCards'']"

text \<open>The five assignments of lines 84 to 88 (and again 93 to 97).\<close>

definition load_into_cache :: "string \<Rightarrow> jsval \<Rightarrow> memory_cache \<Rightarrow> memory_cache" where
  "load_into_cache key v mc =
     (let mc1 = (if key = ''botBrowser_searchCollapsed'' then mc\<lparr>searchCollapsed := v\<rparr> else mc);
          mc2 = (if key = ''botBrowser_recentlyViewed'' then mc1\<lparr>recentlyViewed := v\<rparr> else mc1);
          mc3 = (if key = ''botBrowser_importStats'' then mc2\<lparr>importStats := v\<rparr> else mc2);
          mc4 = (if key = ''botBrowser_bookmarks'' then mc3\<lparr>bookmarks := v\<rparr> else mc3);
          mc5 = (if key = ''botBrowser_importedCards'' then mc4\<lparr>importedCards := v\<rparr> else mc4)
      in mc5)"

text \<open>A string from \<open>localStorage\<close> in a condition: \<open>null\<close> and the empty string are falsy.\<close>

fun str_truthy :: "string option \<Rightarrow> bool" where
  "str_truthy None = False"
| "str_truthy (Some str) = (str \<noteq> [])"

text \<open>
  \<open>JSON.parse\<close> is the parameter \<open>parse\<close>; \<open>None\<close> is a SyntaxError. Applied to what
  \<open>getItem\<close> returned, it reads \<open>null\<close> as the text \<open>null\<close>.
\<close>

definition parse_item :: "(string \<Rightarrow> jsval option) \<Rightarrow> string option \<Rightarrow> jsval option" where
  "parse_item parse item = (case item of None \<Rightarrow> parse ''null'' | Some str \<Rightarrow> parse str)"

text \<open>
  The body of the loop over the well-known keys, lines 67 to 99. The first component of
  \<open>migrated\<close> is \<open>idbVal\<close> after the migration block.
\<close>

definition migrate_key ::
  "(string \<Rightarrow> jsval option) \<Rightarrow> (jsval \<Rightarrow> string) \<Rightarrow> string \<Rightarrow> storage \<Rightarrow> error + storage" where
  "migrate_key parse stringify key s =
     (let lsVal = localStorage_getItem key s in
      case idbGet key s of
        Inl e \<Rightarrow> Inl e
      | Inr idbVal0 \<Rightarrow>
          (let migrated =
                 (if str_truthy lsVal \<and> \<not> truthy idbVal0 then
                    (case parse_item parse lsVal of
                       None \<Rightarrow> (idbVal0, s)
                     | Some parsed \<Rightarrow>
                         (case idbSet stringify key parsed s of
                            Inl e \<Rightarrow> (idbVal0, s)
                          | Inr s' \<Rightarrow> (parsed, s')))
                  else (idbVal0, s));
               idbVal = fst migrated;
               s1 = snd migrated
           in if idbVal \<noteq> JUndefined \<and> idbVal \<noteq> JNull then
                Inr (s1\<lparr>memoryCache := load_into_cache key idbVal (memoryCache s1)\<rparr>)
              else if str_truthy lsVal then
                (case parse_item parse lsVal of
                   None \<Rightarrow> Inr s1
                 | Some parsed \<Rightarrow>
                     Inr (s1\<lparr>memoryCache := load_into_cache key parsed (memoryCache s1)\<rparr>))
              else Inr s1))"

fun migrate_keys ::
  "(string \<Rightarrow> jsval option) \<Rightarrow> (jsval \<Rightarrow> string) \<Rightarrow> string list \<Rightarrow> storage \<Rightarrow> error + storage" where
  "migrate_keys parse stringify [] s = Inr s"
| "migrate_keys parse stringify (key # keys) s =
     (case migrate_key parse stringify key s of
        Inl e \<Rightarrow> Inl e
      | Inr s' \<Rightarrow> migrate_keys parse stringify keys s')"

definition lastSearch_prefix :: string where
  "lastSearch_prefix = ''botBrowser_lastSearch_''"

text \<open>
  The loop of lines 104 to 110 over the keys of \<open>localStorage\<close>, inside one \<open>try\<close>: the
  first value that does not parse ends the loop. The key starts with the prefix, so
  \<open>replace\<close> removes it at the front.
\<close>

fun load_searches ::
  "(string \<Rightarrow> jsval option) \<Rightarrow> string list \<Rightarrow> storage \<Rightarrow> memory_cache \<Rightarrow> memory_cache" where
  "load_searches parse [] s mc = mc"
| "load_searches parse (key # keys) s mc =
     (if key \<noteq> [] \<and> take (length lastSearch_prefix) key = lastSearch_prefix then
        (let serviceName = drop (length lastSearch_prefix) key in
         case parse_item parse (localStorage_getItem key s) of
           None \<Rightarrow> mc
         | Some v \<Rightarrow>
             load_searches parse keys s (mc\<lparr>persistentSearches := put serviceName v (persistentSearches mc)\<rparr>))
      else load_searches parse keys s mc)"

text \<open>\<open>initializeStorage\<close>, lines 54 to 115, awaited.\<close>

definition initializeStorage ::
  "(string \<Rightarrow> jsval option) \<Rightarrow> (jsval \<Rightarrow> string) \<Rightarrow> storage \<Rightarrow> error + storage" where
  "initializeStorage parse stringify s =
     (if isStorageInitialized s then Inr s
      else
        (case migrate_keys parse stringify well_known_keys s of
           Inl e \<Rightarrow> Inl e
         | Inr s1 \<Rightarrow>
             Inr (s1\<lparr>memoryCache := load_searches parse (map fst (localStorage s1)) s1 (memoryCache s1),
                     isStorageInitialized := True\<rparr>)))"

section \<open>Settings, search state and the simple accessors\<close>

text \<open>
  The object \<open>extension_settings[extensionName]\<close>, which the host creates when the
  extension is loaded, with the three settings the module reads. A setting that was
  never set is \<open>undefined\<close>, falsy like \<open>false\<close> and \<open>0\<close>.
\<close>

record settings =
  persistentSearchEnabled :: bool
  recentlyViewedEnabled :: bool
  maxRecentlyViewed :: int

text \<open>\<open>extension_settings[extensionName].maxRecentlyViewed || 10\<close>.\<close>

definition maxRecent :: "settings \<Rightarrow> int" where
  "maxRecent st = (if maxRecentlyViewed st = 0 then 10 else maxRecentlyViewed st)"

text \<open>\<open>loadPersistentSearch\<close>, lines 119 to 122. The slots are the own properties of
  \<open>memoryCache.persistentSearches\<close>; the properties every object inherits (a catalog
  called \<open>constructor\<close>) are not modelled.\<close>

definition loadPersistentSearch :: "settings \<Rightarrow> string \<Rightarrow> storage \<Rightarrow> jsval" where
  "loadPersistentSearch st serviceName s =
     (if \<not> persistentSearchEnabled st then JNull
      else js_or (case map_of (persistentSearches (memoryCache s)) serviceName of
                    None \<Rightarrow> JUndefined
                  | Some v \<Rightarrow> v) JNull)"

text \<open>A parameter with the default value \<open>null\<close>.\<close>

definition default_null :: "jsval \<Rightarrow> jsval" where
  "default_null v = (if v = JUndefined then JNull else v)"

text \<open>\<open>savePersistentSearch\<close>, lines 124 to 129.\<close>

definition savePersistentSearch ::
  "(jsval \<Rightarrow> string) \<Rightarrow> settings \<Rightarrow> string \<Rightarrow> jsval \<Rightarrow> jsval \<Rightarrow> jsval \<Rightarrow> jsval \<Rightarrow> jsval \<Rightarrow> jsval
     \<Rightarrow> storage \<Rightarrow> storage" where
  "savePersistentSearch stringify st serviceName filters sortBy advancedFilters
       jannyAdvancedFilters ctAdvancedFilters wyvernAdvancedFilters s =
     (if \<not> persistentSearchEnabled st then s
      else
        (let data = JObj [(''filters'', filters),
                          (''sortBy'', sortBy),
                          (''advancedFilters'', default_null advancedFilters),
                          (''jannyAdvancedFilters'', default_null jannyAdvancedFilters),
                          (''ctAdvancedFilters'', default_null ctAdvancedFilters),
                          (''wyvernAdvancedFilters'', default_null wyvernAdvancedFilters)];
             s1 = s\<lparr>memoryCache := (memoryCache s)
                       \<lparr>persistentSearches := put serviceName data (persistentSearches (memoryCache s))\<rparr>\<rparr>
         in case localStorage_setItem (lastSearch_prefix @ serviceName) (stringify data) s1 of
              Inl e \<Rightarrow> s1
            | Inr s2 \<Rightarrow> s2))"

definition loadSearchCollapsed :: "storage \<Rightarrow> jsval" where
  "loadSearchCollapsed s = searchCollapsed (memoryCache s)"

definition saveSearchCollapsed :: "jsval \<Rightarrow> storage \<Rightarrow> storage" where
  "saveSearchCollapsed collapsed s =
     schedule ''botBrowser_searchCollapsed'' collapsed
       (s\<lparr>memoryCache := (memoryCache s)\<lparr>searchCollapsed := collapsed\<rparr>\<rparr>)"

definition loadImportStats :: "storage \<Rightarrow> jsval" where
  "loadImportStats s = importStats (memoryCache s)"

text \<open>\<open>saveImportStats\<close>, lines 222 to 225; it returns nothing, that is \<open>undefined\<close>.\<close>

definition saveImportStats :: "jsval \<Rightarrow> storage \<Rightarrow> jsval \<times> storage" where
  "saveImportStats stats s =
     (JUndefined,
      schedule ''botBrowser_importStats'' stats
        (s\<lparr>memoryCache := (memoryCache s)\<lparr>importStats := stats\<rparr>\<rparr>))"

section \<open>Recently viewed\<close>

text \<open>
  \<open>loadRecentlyViewed\<close>, lines 141 to 151. The mirror holds an array; a string has a
  \<open>length\<close> and a \<open>slice\<close> too, and any other truthy value, which has no \<open>length\<close>
  to compare, is returned as it is. An object with a \<open>length\<close> of its own above the
  maximum, on which the code would throw for want of \<open>slice\<close>, is not modelled.
\<close>

definition loadRecentlyViewed :: "settings \<Rightarrow> storage \<Rightarrow> jsval \<times> storage" where
  "loadRecentlyViewed st s =
     (if \<not> recentlyViewedEnabled st then (JArr [], s)
      else
        (let rv = js_or (recentlyViewed (memoryCache s)) (JArr []) in
         case rv of
           JArr xs \<Rightarrow>
             (if int (length xs) > maxRecent st then
                (let rv' = JArr (js_slice0 xs (maxRecent st)) in
                 (rv', s\<lparr>memoryCache := (memoryCache s)\<lparr>recentlyViewed := rv'\<rparr>\<rparr>))
              else (rv, s))
         | JStr str \<Rightarrow>
             (if int (length str) > maxRecent st then
                (let rv' = JStr (js_slice0 str (maxRecent st)) in
                 (rv', s\<lparr>memoryCache := (memoryCache s)\<lparr>recentlyViewed := rv'\<rparr>\<rparr>))
              else (rv, s))
         | _ \<Rightarrow> (rv, s)))"

text \<open>The object literal of lines 163 to 199.\<close>

definition recent_entry :: "jsval \<Rightarrow> error + jsval" where
  "recent_entry crd =
     (if nullish crd then Inl TypeError
      else
        (let p = js_prop crd in
         Inr (JObj
           [(''id'', p ''id''),
            (''name'', p ''name''),
            (''creator'', p ''creator''),
            (''avatar_url'', js_or (p ''avatar_url'') (p ''image_url'')),
            (''service'', p ''service''),
            (''chunk'', p ''chunk''),
            (''chunk_idx'', p ''chunk_idx''),
            (''sourceService'', p ''sourceService''),
            (''possibleNsfw'', js_or (p ''possibleNsfw'') (JBool False)),
            (''isLiveChub'', js_or (p ''isLiveChub'') (JBool False)),
            (''fullPath'', js_or (p ''fullPath'') JNull),
            (''nodeId'', js_or (p ''nodeId'') JNull),
            (''isLorebook'', js_or (p ''isLorebook'') (JBool False)),
            (''isJannyAI'', js_or (p ''isJannyAI'') (JBool False)),
            (''slug'', js_or (p ''slug'') JNull),
            (''isCharacterTavern'', js_or (p ''isCharacterTavern'') (JBool False)),
            (''isWyvern'', js_or (p ''isWyvern'') (JBool False)),
            (''isQuillGen'', JBool (p ''service'' = JStr ''quillgen'' \<or> p ''sourceService'' = JStr ''quillgen'')),
            (''description'', js_or (js_or (js_or (p ''description'') (p ''tagline'')) (p ''summary'')) JNull),
            (''personality'', js_or (p ''personality'') JNull),
            (''scenario'', js_or (p ''scenario'') JNull),
            (''first_message'', js_or (js_or (p ''first_message'') (p ''first_mes'')) JNull),
            (''mes_example'', js_or (p ''mes_example'') JNull),
            (''alternate_greetings'', js_or (p ''alternate_greetings'') JNull),
            (''tags'', js_or (p ''tags'') JNull),
            (''creator_notes'', js_or (p ''creator_notes'') JNull),
            (''nTokens'', js_or (js_or (p ''nTokens'') (p ''token_count'')) JNull),
            (''_rawData'', js_or (p ''_rawData'') JNull)])))"

text \<open>
  The \<open>try\<close> block of \<open>addToRecentlyViewed\<close>, lines 159 to 209. The parameter
  \<open>recentlyViewed\<close> is reassigned by the first statement, and the \<open>catch\<close> block returns
  the variable: an exception comes with the value the variable has when it is thrown.
\<close>

definition addToRecentlyViewed_try ::
  "settings \<Rightarrow> jsval \<Rightarrow> jsval \<Rightarrow> storage \<Rightarrow> (error \<times> jsval) + (jsval \<times> storage)" where
  "addToRecentlyViewed_try st recentlyViewed0 crd s =
     (case as_array recentlyViewed0 of
        Inl e \<Rightarrow> Inl (e, recentlyViewed0)
      | Inr xs \<Rightarrow>
          (case js_filter (id_differs crd) xs of
             Inl e \<Rightarrow> Inl (e, recentlyViewed0)
           | Inr filtered \<Rightarrow>
               (case recent_entry crd of
                  Inl e \<Rightarrow> Inl (e, JArr filtered)
                | Inr entry \<Rightarrow>
                    (let unshifted = entry # filtered;
                         kept = (if int (length unshifted) > maxRecent st
                                 then js_slice0 unshifted (maxRecent st) else unshifted);
                         s1 = s\<lparr>memoryCache := (memoryCache s)\<lparr>recentlyViewed := JArr kept\<rparr>\<rparr>
                     in Inr (JArr kept, schedule ''botBrowser_recentlyViewed'' (JArr kept) s1)))))"

text \<open>\<open>addToRecentlyViewed\<close>, lines 154 to 214.\<close>

definition addToRecentlyViewed :: "settings \<Rightarrow> jsval \<Rightarrow> jsval \<Rightarrow> storage \<Rightarrow> jsval \<times> storage" where
  "addToRecentlyViewed st recentlyViewed0 crd s =
     (if \<not> recentlyViewedEnabled st then (recentlyViewed0, s)
      else
        (case addToRecentlyViewed_try st recentlyViewed0 crd s of
           Inr r \<Rightarrow> r
         | Inl (e, recentlyViewed1) \<Rightarrow> (recentlyViewed1, s)))"

section \<open>Bookmarks\<close>

definition loadBookmarks :: "storage \<Rightarrow> jsval" where
  "loadBookmarks s = js_or (bookmarks (memoryCache s)) (JArr [])"

definition saveBookmarks :: "jsval \<Rightarrow> storage \<Rightarrow> storage" where
  "saveBookmarks bs s =
     schedule ''botBrowser_bookmarks'' bs (s\<lparr>memoryCache := (memoryCache s)\<lparr>bookmarks := bs\<rparr>\<rparr>)"

text \<open>The object literal of lines 250 to 270.\<close>

definition bookmark_entry :: "jsval \<Rightarrow> string \<Rightarrow> error + jsval" where
  "bookmark_entry crd stamp =
     (if nullish crd then Inl TypeError
      else
        (let p = js_prop crd in
         Inr (JObj
           [(''id'', p ''id''),
            (''name'', p ''name''),
            (''creator'', p ''creator''),
            (''avatar_url'', js_or (p ''avatar_url'') (p ''image_url'')),
            (''service'', p ''service''),
            (''chunk'', p ''chunk''),
            (''chunk_idx'', p ''chunk_idx''),
            (''sourceService'', p ''sourceService''),
            (''possibleNsfw'', js_or (p ''possibleNsfw'') (JBool False)),
            (''isLiveChub'', js_or (p ''isLiveChub'') (JBool False)),
            (''fullPath'', js_or (p ''fullPath'') JNull),
            (''nodeId'', js_or (p ''nodeId'') JNull),
            (''isLorebook'', js_or (p ''isLorebook'') (JBool False)),
            (''isJannyAI'', js_or (p ''isJannyAI'') (JBool False)),
            (''slug'', js_or (p ''slug'') JNull),
            (''isWyvern'', js_or (p ''isWyvern'') (JBool False)),
            (''bookmarkedAt'', JStr stamp)])))"

text \<open>
  The \<open>try\<close> block of \<open>addBookmark\<close>, lines 241 to 274. \<open>unshift\<close> changes the array in
  place; nothing after it can throw, so the state changes only where the block completes.
\<close>

definition addBookmark_try :: "jsval \<Rightarrow> storage \<Rightarrow> error + (jsval \<times> storage)" where
  "addBookmark_try crd s =
     (let bookmarks0 = loadBookmarks s in
      case as_array bookmarks0 of
        Inl e \<Rightarrow> Inl e
      | Inr bs \<Rightarrow>
          (case js_some (id_equals crd) bs of
             Inl e \<Rightarrow> Inl e
           | Inr found \<Rightarrow>
               (if found then Inr (bookmarks0, s)
                else
                  (case bookmark_entry crd (date_iso s) of
                     Inl e \<Rightarrow> Inl e
                   | Inr entry \<Rightarrow>
                       (let bookmarks1 = JArr (entry # bs)
                        in Inr (bookmarks1, saveBookmarks bookmarks1 s))))))"

text \<open>\<open>addBookmark\<close>, lines 239 to 279.\<close>

definition addBookmark :: "jsval \<Rightarrow> storage \<Rightarrow> jsval \<times> storage" where
  "addBookmark crd s =
     (case addBookmark_try crd s of
        Inr r \<Rightarrow> r
      | Inl e \<Rightarrow> (loadBookmarks s, s))"

text \<open>The \<open>try\<close> block of \<open>removeBookmark\<close>, lines 284 to 292.\<close>

definition removeBookmark_try :: "jsval \<Rightarrow> storage \<Rightarrow> error + (jsval \<times> storage)" where
  "removeBookmark_try cardId s =
     (let bookmarks0 = loadBookmarks s in
      case as_array bookmarks0 of
        Inl e \<Rightarrow> Inl e
      | Inr bs \<Rightarrow>
          (let before_len = length bs in
           case js_filter (id_is_not cardId) bs of
             Inl e \<Rightarrow> Inl e
           | Inr bs' \<Rightarrow>
               (if length bs' < before_len then Inr (JArr bs', saveBookmarks (JArr bs') s)
                else Inr (JArr bs', s))))"

text \<open>\<open>removeBookmark\<close>, lines 282 to 297.\<close>

definition removeBookmark :: "jsval \<Rightarrow> storage \<Rightarrow> jsval \<times> storage" where
  "removeBookmark cardId s =
     (case removeBookmark_try cardId s of
        Inr r \<Rightarrow> r
      | Inl e \<Rightarrow> (loadBookmarks s, s))"

section \<open>Import history\<close>

definition loadImportedCards :: "storage \<Rightarrow> jsval" where
  "loadImportedCards s = js_or (importedCards (memoryCache s)) (JArr [])"

definition saveImportedCards :: "jsval \<Rightarrow> storage \<Rightarrow> storage" where
  "saveImportedCards cs s =
     schedule ''botBrowser_importedCards'' cs (s\<lparr>memoryCache := (memoryCache s)\<lparr>importedCards := cs\<rparr>\<rparr>)"

text \<open>\<open>v.substring(0, n)\<close> for a truthy receiver: only a string has the method.\<close>

fun js_substring0 :: "jsval \<Rightarrow> nat \<Rightarrow> error + jsval" where
  "js_substring0 (JStr str) n = Inr (JStr (take n str))"
| "js_substring0 v n = Inl TypeError"

text \<open>The object literal of lines 331 to 355. The parameter \<open>type\<close> has the default
  \<open>'character'\<close>.\<close>

definition import_record :: "jsval \<Rightarrow> jsval \<Rightarrow> string \<Rightarrow> error + jsval" where
  "import_record crd type stamp =
     (if nullish crd then Inl TypeError
      else
        (let p = js_prop crd in
         case (if truthy (p ''desc_preview'') then Inr (p ''desc_preview'')
               else if truthy (p ''description'') then js_substring0 (p ''description'') 200
               else Inr (JStr [])) of
           Inl e \<Rightarrow> Inl e
         | Inr desc_preview \<Rightarrow>
             Inr (JObj
               [(''id'', p ''id''),
                (''name'', p ''name''),
                (''creator'', js_or (p ''creator'') (JStr ''Unknown'')),
                (''avatar_url'', js_or (p ''avatar_url'') (p ''image_url'')),
                (''image_url'', js_or (p ''image_url'') (p ''avatar_url'')),
                (''tags'', js_or (p ''tags'') (JArr [])),
                (''description'', js_or (js_or (p ''description'') (p ''desc_preview'')) (JStr [])),
                (''desc_preview'', desc_preview),
                (''service'', p ''service''),
                (''sourceService'', js_or (p ''sourceService'') (p ''service'')),
                (''possibleNsfw'', js_or (p ''possibleNsfw'') (JBool False)),
                (''nTokens'', js_or (p ''nTokens'') JNull),
                (''created_at'', js_or (p ''created_at'') JNull),
                (''type'', if type = JUndefined then JStr ''character'' else type),
                (''imported_at'', JStr stamp),
                (''isLiveChub'', js_or (p ''isLiveChub'') (JBool False)),
                (''fullPath'', js_or (p ''fullPath'') JNull),
                (''isJannyAI'', js_or (p ''isJannyAI'') (JBool False)),
                (''slug'', js_or (p ''slug'') JNull),
                (''isCharacterTavern'', js_or (p ''isCharacterTavern'') (JBool False)),
                (''isMlpchag'', js_or (p ''isMlpchag'') (JBool False)),
                (''isWyvern'', js_or (p ''isWyvern'') (JBool False))])))"

text \<open>Lines 360 to 368: the cap of 500, the save and the return.\<close>

definition keep_500 :: "jsval list \<Rightarrow> storage \<Rightarrow> jsval \<times> storage" where
  "keep_500 cs s =
     (let kept = (if length cs > 500 then js_slice0 cs 500 else cs)
      in (JArr kept, saveImportedCards (JArr kept) s))"

text \<open>
  The \<open>try\<close> block of \<open>trackImportedCard\<close>, lines 319 to 368. The entry found is
  stamped, spliced out and put in front, all in place; the statements that can throw
  come before the first change.
\<close>

definition trackImportedCard_try :: "jsval \<Rightarrow> jsval \<Rightarrow> storage \<Rightarrow> error + (jsval \<times> storage)" where
  "trackImportedCard_try crd type s =
     (case as_array (loadImportedCards s) of
        Inl e \<Rightarrow> Inl e
      | Inr cs \<Rightarrow>
          (case js_findIndex (id_equals crd) cs of
             Inl e \<Rightarrow> Inl e
           | Inr (Some existingIndex) \<Rightarrow>
               (case set_prop (cs ! existingIndex) ''imported_at'' (JStr (date_iso s)) of
                  Inl e \<Rightarrow> Inl e
                | Inr existing \<Rightarrow>
                    Inr (keep_500 (existing # take existingIndex cs @ drop (Suc existingIndex) cs) s))
           | Inr None \<Rightarrow>
               (case import_record crd type (date_iso s) of
                  Inl e \<Rightarrow> Inl e
                | Inr importRecord \<Rightarrow> Inr (keep_500 (importRecord # cs) s))))"

text \<open>\<open>trackImportedCard\<close>, lines 317 to 373.\<close>

definition trackImportedCard :: "jsval \<Rightarrow> jsval \<Rightarrow> storage \<Rightarrow> jsval \<times> storage" where
  "trackImportedCard crd type s =
     (case trackImportedCard_try crd type s of
        Inr r \<Rightarrow> r
      | Inl e \<Rightarrow> (loadImportedCards s, s))"

text \<open>The \<open>try\<close> block of \<open>removeImportedCard\<close>, lines 378 to 386.\<close>

definition removeImportedCard_try :: "jsval \<Rightarrow> storage \<Rightarrow> error + (jsval \<times> storage)" where
  "removeImportedCard_try cardId s =
     (let importedCards0 = loadImportedCards s in
      case as_array importedCards0 of
        Inl e \<Rightarrow> Inl e
      | Inr cs \<Rightarrow>
          (let before_len = length cs in
           case js_filter (id_is_not cardId) cs of
             Inl e \<Rightarrow> Inl e
           | Inr cs' \<Rightarrow>
               (if length cs' < before_len then Inr (JArr cs', saveImportedCards (JArr cs') s)
                else Inr (JArr cs', s))))"

text \<open>\<open>removeImportedCard\<close>, lines 376 to 391.\<close>

definition removeImportedCard :: "jsval \<Rightarrow> storage \<Rightarrow> jsval \<times> storage" where
  "removeImportedCard cardId s =
     (case removeImportedCard_try cardId s of
        Inr r \<Rightarrow> r
      | Inl e \<Rightarrow> (loadImportedCards s, s))"

text \<open>\<open>clearImportedCards\<close>, lines 394 to 399.\<close>

definition clearImportedCards :: "storage \<Rightarrow> jsval \<times> storage" where
  "clearImportedCards s =
     (JArr [],
      schedule ''botBrowser_importedCards'' (JArr [])
        (s\<lparr>memoryCache := (memoryCache s)\<lparr>importedCards := JArr []\<rparr>\<rparr>))"

section \<open>Sequences of calls\<close>

text \<open>
  A caller of \<open>addToRecentlyViewed\<close> passes the collection it holds and keeps the one
  returned; \<open>addBookmark\<close> and \<open>trackImportedCard\<close> work on the mirror.
\<close>

definition view_cards :: "settings \<Rightarrow> jsval list \<Rightarrow> jsval \<times> storage \<Rightarrow> jsval \<times> storage" where
  "view_cards st cards start = fold (\<lambda>crd r. addToRecentlyViewed st (fst r) crd (snd r)) cards start"

definition bookmark_cards :: "jsval list \<Rightarrow> storage \<Rightarrow> jsval \<times> storage" where
  "bookmark_cards cards s = fold (\<lambda>crd r. addBookmark crd (snd r)) cards (loadBookmarks s, s)"

definition import_cards :: "jsval \<Rightarrow> jsval list \<Rightarrow> storage \<Rightarrow> jsval \<times> storage" where
  "import_cards type cards s =
     fold (\<lambda>crd r. trackImportedCard crd type (snd r)) cards (loadImportedCards s, s)"

text \<open>The ids of the elements of a collection, in order.\<close>

definition ids_of :: "jsval \<Rightarrow> jsval list" where
  "ids_of v = (case v of JArr xs \<Rightarrow> map (\<lambda>c. js_prop c ''id'') xs | _ \<Rightarrow> [])"

text \<open>A card the collections can take: an object, or any value other than \<open>null\<close> and
  \<open>undefined\<close>, whose \<open>id\<close> is a primitive value.\<close>

fun primitive :: "jsval \<Rightarrow> bool" where
  "primitive (JArr xs) = False"
| "primitive (JObj kvs) = False"
| "primitive v = True"

definition card_ok :: "jsval \<Rightarrow> bool" where
  "card_ok crd = (\<not> nullish crd \<and> primitive (js_prop crd ''id''))"

text \<open>A card from which \<open>trackImportedCard\<close> can build its record: where the preview is
  cut from the description, the description is a string.\<close>

definition importable :: "jsval \<Rightarrow> bool" where
  "importable crd =
     (card_ok crd \<and>
      (truthy (js_prop crd ''desc_preview'') \<or> \<not> truthy (js_prop crd ''description'')
         \<or> (case js_prop crd ''description'' of JStr str \<Rightarrow> True | _ \<Rightarrow> False)))"

fun is_object :: "jsval \<Rightarrow> bool" where
  "is_object (JObj kvs) = True"
| "is_object v = False"

section \<open>Example inputs\<close>

definition card_a :: jsval where
  "card_a = JObj [(''id'', JStr ''a'')]"

definition card_b :: jsval where
  "card_b = JObj [(''id'', JStr ''b'')]"

definition card_c :: jsval where
  "card_c = JObj [(''id'', JStr ''c'')]"

text \<open>A module whose three collections hold the cards a, b and c.\<close>

definition abc_storage :: storage where
  "abc_storage =
     fresh_storage\<lparr>memoryCache := initial_memoryCache
       \<lparr>recentlyViewed := JArr [card_a, card_b, card_c],
        bookmarks := JArr [card_a, card_b, card_c],
        importedCards := JArr [card_a, card_b, card_c]\<rparr>\<rparr>"

text \<open>
  The search panel was collapsed under an older version, which left \<open>"true"\<close> in
  \<open>localStorage\<close>; the user has since expanded it, which stored \<open>false\<close> in localForage.
\<close>

definition expanded_storage :: storage where
  "expanded_storage =
     fresh_storage\<lparr>localforage := [''botBrowser_searchCollapsed'' \<mapsto> JBool False],
                   localStorage := [(''botBrowser_searchCollapsed'', ''true'')]\<rparr>"

text \<open>A module whose bookmarks and import history hold a malformed element.\<close>

definition damaged_storage :: storage where
  "damaged_storage =
     fresh_storage\<lparr>memoryCache := initial_memoryCache
       \<lparr>bookmarks := JArr [card_a, JNull],
        importedCards := JArr [card_a, JNull]\<rparr>\<rparr>"

text \<open>A module that remembers a search on one catalog.\<close>

definition searched_storage :: storage where
  "searched_storage =
     fresh_storage\<lparr>memoryCache := initial_memoryCache
       \<lparr>persistentSearches := [(''chub'', JObj [(''filters'', JObj []), (''sortBy'', JStr ''new'')])]\<rparr>\<rparr>"

section \<open>Properties\<close>

subsection \<open>Values, array methods and lists\<close>

lemma map_of_put_same: "map_of (put k v ps) k = Some v"
  by (induction ps) auto

lemma map_of_put_other: "k' \<noteq> k \<Longrightarrow> map_of (put k v ps) k' = map_of ps k'"
  by (induction ps) auto

lemma as_array_Inr: "as_array v = Inr xs \<longleftrightarrow> v = JArr xs"
  by (cases v) auto

lemma is_object_not_nullish: "is_object c \<Longrightarrow> \<not> nullish c"
  by (cases c) (simp_all add: nullish_def)

lemma card_ok_not_nullish: "card_ok c \<Longrightarrow> \<not> nullish c"
  by (simp add: card_ok_def)

lemma importable_not_nullish: "importable c \<Longrightarrow> \<not> nullish c"
  by (simp add: importable_def card_ok_def)

lemma set_prop_object:
  "is_object c \<Longrightarrow>
     \<exists>kvs. set_prop c ''imported_at'' v = Inr (JObj kvs) \<and> js_prop (JObj kvs) ''id'' = js_prop c ''id''"
  by (cases c) (simp_all add: map_of_put_other)

lemma js_filter_Inr:
  "js_filter p xs = Inr ys \<Longrightarrow>
     (\<forall>x\<in>set xs. \<exists>b. p x = Inr b) \<and> ys = filter (\<lambda>x. p x = Inr True) xs"
  by (induction xs arbitrary: ys) (auto split: sum.splits if_splits)

lemma js_filter_total:
  "\<forall>x\<in>set xs. \<exists>b. p x = Inr b \<Longrightarrow> js_filter p xs = Inr (filter (\<lambda>x. p x = Inr True) xs)"
  by (induction xs) (auto split: sum.splits)

lemma js_filter_shorter: "js_filter p xs = Inr ys \<Longrightarrow> length ys \<le> length xs"
  by (induction xs arbitrary: ys) (auto split: sum.splits if_splits)

lemma js_filter_same_length:
  "js_filter p xs = Inr ys \<Longrightarrow> \<not> length ys < length xs \<Longrightarrow> ys = xs"
proof (induction xs arbitrary: ys)
  case Nil
  then show ?case by simp
next
  case (Cons x xs)
  from Cons.prems(1) obtain b zs where px: "p x = Inr b" and f: "js_filter p xs = Inr zs"
    and ys: "ys = (if b then x # zs else zs)"
    by (auto split: sum.splits)
  from js_filter_shorter [OF f] have le: "length zs \<le> length xs" .
  show ?case
  proof (cases b)
    case True
    with ys Cons.prems(2) have "\<not> length zs < length xs" by simp
    from Cons.IH [OF f this] True ys show ?thesis by simp
  next
    case False
    with ys le Cons.prems(2) show ?thesis by simp
  qed
qed

lemma filter_length_less:
  "\<exists>x\<in>set xs. \<not> P x \<Longrightarrow> length (filter P xs) < length xs"
  by (auto intro: length_filter_less)

lemma id_is_not_simp:
  "id_is_not cardId b = (if nullish b then Inl TypeError else Inr (js_prop b ''id'' \<noteq> cardId))"
  by (simp add: id_is_not_def get_prop_def)

lemma id_differs_simp:
  "id_differs crd c =
     (if nullish c \<or> nullish crd then Inl TypeError else Inr (js_prop c ''id'' \<noteq> js_prop crd ''id''))"
  by (simp add: id_differs_def get_prop_def)

lemma id_equals_simp:
  "id_equals crd c =
     (if nullish c \<or> nullish crd then Inl TypeError else Inr (js_prop c ''id'' = js_prop crd ''id''))"
  by (simp add: id_equals_def get_prop_def)

lemma filter_ids_differ:
  "\<not> nullish crd \<Longrightarrow> \<forall>x\<in>set xs. \<not> nullish x \<Longrightarrow>
     js_filter (id_differs crd) xs = Inr (filter (\<lambda>c. js_prop c ''id'' \<noteq> js_prop crd ''id'') xs)"
proof -
  assume c: "\<not> nullish crd" and n: "\<forall>x\<in>set xs. \<not> nullish x"
  then have "\<forall>x\<in>set xs. \<exists>b. id_differs crd x = Inr b"
    by (simp add: id_differs_simp)
  from js_filter_total [OF this]
  have "js_filter (id_differs crd) xs = Inr (filter (\<lambda>x. id_differs crd x = Inr True) xs)" .
  moreover have "filter (\<lambda>x. id_differs crd x = Inr True) xs
                 = filter (\<lambda>c. js_prop c ''id'' \<noteq> js_prop crd ''id'') xs"
    using c n by (intro filter_cong) (auto simp: id_differs_simp)
  ultimately show ?thesis by simp
qed

lemma js_filter_nullish_card:
  "nullish crd \<Longrightarrow> js_filter (id_differs crd) xs = Inr ys \<Longrightarrow> xs = [] \<and> ys = []"
  by (cases xs) (auto simp: id_differs_simp split: sum.splits)

lemma js_some_ids:
  "\<not> nullish crd \<Longrightarrow> \<forall>x\<in>set xs. \<not> nullish x \<Longrightarrow>
     js_some (id_equals crd) xs = Inr (js_prop crd ''id'' \<in> set (map (\<lambda>c. js_prop c ''id'') xs))"
  by (induction xs) (auto simp: id_equals_simp)

lemma js_findIndex_none:
  "\<not> nullish crd \<Longrightarrow> \<forall>x\<in>set xs. \<not> nullish x \<Longrightarrow>
     js_prop crd ''id'' \<notin> set (map (\<lambda>c. js_prop c ''id'') xs) \<Longrightarrow>
     js_findIndex (id_equals crd) xs = Inr None"
  by (induction xs) (auto simp: id_equals_simp)

lemma js_findIndex_some:
  "\<not> nullish crd \<Longrightarrow> \<forall>x\<in>set xs. \<not> nullish x \<Longrightarrow>
     js_prop crd ''id'' \<in> set (map (\<lambda>c. js_prop c ''id'') xs) \<Longrightarrow>
     \<exists>k. js_findIndex (id_equals crd) xs = Inr (Some k) \<and> k < length xs
          \<and> js_prop (xs ! k) ''id'' = js_prop crd ''id''"
proof (induction xs)
  case Nil
  then show ?case by simp
next
  case (Cons x xs)
  show ?case
  proof (cases "js_prop x ''id'' = js_prop crd ''id''")
    case True
    with Cons.prems show ?thesis by (simp add: id_equals_simp)
  next
    case False
    with Cons obtain k where "js_findIndex (id_equals crd) xs = Inr (Some k)" "k < length xs"
      "js_prop (xs ! k) ''id'' = js_prop crd ''id''" by auto
    moreover from False Cons.prems have "id_equals crd x = Inr False"
      by (simp add: id_equals_simp)
    ultimately show ?thesis
      by (intro exI [of _ "Suc k"]) simp
  qed
qed

lemma map_filter_ids:
  "map f (filter (\<lambda>c. f c \<noteq> a) xs) = filter (\<lambda>i. i \<noteq> a) (map f xs)"
  by (induction xs) auto

lemma remdups_snoc:
  "remdups (xs @ [x]) = filter (\<lambda>y. y \<noteq> x) (remdups xs) @ [x]"
  by (induction xs) auto

lemma take_filter_take:
  "distinct L \<Longrightarrow> take k (filter (\<lambda>x. x \<noteq> i) (take (Suc k) L)) = take k (filter (\<lambda>x. x \<noteq> i) L)"
proof (induction L arbitrary: k)
  case Nil
  then show ?case by simp
next
  case (Cons a L)
  show ?case
  proof (cases "a = i")
    case True
    with Cons.prems have "i \<notin> set L" by simp
    then have "filter (\<lambda>x. x \<noteq> i) L = L" "filter (\<lambda>x. x \<noteq> i) (take k L) = take k L"
      by (auto simp: filter_id_conv dest: in_set_takeD)
    with True show ?thesis by simp
  next
    case False
    with Cons show ?thesis by (cases k) auto
  qed
qed

lemma upsert_front_ids:
  assumes "0 < n"
  shows "take n (i # filter (\<lambda>x. x \<noteq> i) (take n (rev (remdups ids))))
         = take n (rev (remdups (ids @ [i])))"
proof -
  from assms obtain k where k: "n = Suc k" by (cases n) auto
  have "distinct (rev (remdups ids))" by simp
  from take_filter_take [OF this, of k i]
  show ?thesis by (simp add: k remdups_snoc rev_filter)
qed

lemma remove_nth_distinct:
  "distinct xs \<Longrightarrow> k < length xs \<Longrightarrow> take k xs @ drop (Suc k) xs = filter (\<lambda>x. x \<noteq> xs ! k) xs"
proof (induction xs arbitrary: k)
  case Nil
  then show ?case by simp
next
  case (Cons a xs)
  show ?case
  proof (cases k)
    case 0
    with Cons.prems have "filter (\<lambda>x. x \<noteq> a) xs = xs" by (auto simp: filter_id_conv)
    with 0 show ?thesis by simp
  next
    case (Suc j)
    with Cons.prems have "a \<noteq> xs ! j" by auto
    with Suc Cons show ?thesis by simp
  qed
qed

subsection \<open>The adapter never raises\<close>

lemma idbSet_cases:
  "idbSet stringify key val s =
     Inr (if \<not> localforage_fails s
          then s\<lparr>localforage := (localforage s)(key \<mapsto> (if val = JUndefined then JNull else val))\<rparr>
          else if \<not> localStorage_fails s
          then s\<lparr>localStorage := put key (stringify val) (localStorage s)\<rparr>
          else s)"
  by (simp add: idbSet_def localforage_setItem_def localStorage_setItem_def)

lemma idbGet_cases:
  "idbGet key s =
     Inr (if localforage_fails s then JNull
          else (case localforage s key of None \<Rightarrow> JNull | Some v \<Rightarrow> v))"
  by (simp add: idbGet_def localforage_getItem_def)

text \<open>
  C7. \<open>idbSet\<close> and \<open>idbGet\<close> return normally for every key, value and state of the
  stores. When the localForage write throws, \<open>idbSet\<close> writes the stringified value
  to \<open>localStorage\<close> if that store accepts it, and changes nothing if that throws too.
  When the localForage read throws, \<open>idbGet\<close> returns \<open>null\<close>.
\<close>

theorem adapter_never_raises:
  "(\<exists>s'. idbSet stringify key val s = Inr s') \<and>
   (\<exists>v. idbGet key s = Inr v) \<and>
   (localforage_setItem key val s = Inl StorageError \<longrightarrow>
      localStorage_setItem key (stringify val) s = Inr s2 \<longrightarrow>
        idbSet stringify key val s = Inr s2 \<and>
        localStorage_getItem key s2 = Some (stringify val)) \<and>
   (localforage_setItem key val s = Inl StorageError \<longrightarrow>
      localStorage_setItem key (stringify val) s = Inl StorageError \<longrightarrow>
        idbSet stringify key val s = Inr s) \<and>
   (localforage_getItem key s = Inl StorageError \<longrightarrow> idbGet key s = Inr JNull)"
proof -
  have a: "\<exists>s'. idbSet stringify key val s = Inr s'"
    by (simp add: idbSet_cases)
  have b: "\<exists>v. idbGet key s = Inr v"
    by (simp add: idbGet_cases)
  have c: "localforage_setItem key val s = Inl StorageError \<longrightarrow>
      localStorage_setItem key (stringify val) s = Inr s2 \<longrightarrow>
        idbSet stringify key val s = Inr s2 \<and>
        localStorage_getItem key s2 = Some (stringify val)"
    by (auto simp: idbSet_def localStorage_setItem_def localStorage_getItem_def map_of_put_same
             split: if_splits)
  have d: "localforage_setItem key val s = Inl StorageError \<longrightarrow>
      localStorage_setItem key (stringify val) s = Inl StorageError \<longrightarrow>
        idbSet stringify key val s = Inr s"
    by (simp add: idbSet_def)
  have e: "localforage_getItem key s = Inl StorageError \<longrightarrow> idbGet key s = Inr JNull"
    by (simp add: idbGet_def)
  from a b c d e show ?thesis by blast
qed

theorem adapter_never_raises_witness:
  "localforage_setItem ''k'' (JNum 1) (fresh_storage\<lparr>localforage_fails := True\<rparr>) = Inl StorageError \<and>
   localStorage_setItem ''k'' ''1'' (fresh_storage\<lparr>localforage_fails := True\<rparr>)
     = Inr (fresh_storage\<lparr>localforage_fails := True, localStorage := [(''k'', ''1'')]\<rparr>) \<and>
   idbSet (\<lambda>v. ''1'') ''k'' (JNum 1) (fresh_storage\<lparr>localforage_fails := True\<rparr>)
     = Inr (fresh_storage\<lparr>localforage_fails := True, localStorage := [(''k'', ''1'')]\<rparr>) \<and>
   localforage_setItem ''k'' (JNum 1) (fresh_storage\<lparr>localforage_fails := True, localStorage_fails := True\<rparr>)
     = Inl StorageError \<and>
   localStorage_setItem ''k'' ''1'' (fresh_storage\<lparr>localforage_fails := True, localStorage_fails := True\<rparr>)
     = Inl StorageError \<and>
   idbSet (\<lambda>v. ''1'') ''k'' (JNum 1) (fresh_storage\<lparr>localforage_fails := True, localStorage_fails := True\<rparr>)
     = Inr (fresh_storage\<lparr>localforage_fails := True, localStorage_fails := True\<rparr>) \<and>
   localforage_getItem ''k'' (fresh_storage\<lparr>localforage_fails := True\<rparr>) = Inl StorageError \<and>
   idbGet ''k'' (fresh_storage\<lparr>localforage_fails := True\<rparr>) = Inr JNull"
proof -
  have h1: "localforage_setItem ''k'' (JNum 1) (fresh_storage\<lparr>localforage_fails := True\<rparr>) = Inl StorageError"
    by (simp add: localforage_setItem_def)
  have h2: "localStorage_setItem ''k'' ''1'' (fresh_storage\<lparr>localforage_fails := True\<rparr>)
     = Inr (fresh_storage\<lparr>localforage_fails := True, localStorage := [(''k'', ''1'')]\<rparr>)"
    by (simp add: localStorage_setItem_def fresh_storage_def)
  have h3: "localforage_setItem ''k'' (JNum 1) (fresh_storage\<lparr>localforage_fails := True, localStorage_fails := True\<rparr>)
     = Inl StorageError"
    by (simp add: localforage_setItem_def)
  have h4: "localStorage_setItem ''k'' ''1'' (fresh_storage\<lparr>localforage_fails := True, localStorage_fails := True\<rparr>)
     = Inl StorageError"
    by (simp add: localStorage_setItem_def)
  have h5: "localforage_getItem ''k'' (fresh_storage\<lparr>localforage_fails := True\<rparr>) = Inl StorageError"
    by (simp add: localforage_getItem_def)
  from adapter_never_raises
         [of "\<lambda>v. ''1''" "''k''" "JNum 1" "fresh_storage\<lparr>localforage_fails := True\<rparr>"
             "fresh_storage\<lparr>localforage_fails := True, localStorage := [(''k'', ''1'')]\<rparr>"]
       adapter_never_raises
         [of "\<lambda>v. ''1''" "''k''" "JNum 1"
             "fresh_storage\<lparr>localforage_fails := True, localStorage_fails := True\<rparr>"]
       h1 h2 h3 h4 h5
  show ?thesis by simp
qed

lemma settle_mirror: "memoryCache (settle stringify s) = memoryCache s"
  by (simp add: settle_def idbSet_cases split: list.splits)

lemma settle_many_mirror: "memoryCache ((settle stringify ^^ n) s) = memoryCache s"
  by (induction n) (simp_all add: settle_mirror)

subsection \<open>Freshness of cached responses\<close>

text \<open>
  C3. With a working localForage store and a clock that does not read 0, a payload stored
  by \<open>idbSetCachedApi\<close> at time \<open>date_now s\<close> is returned by \<open>idbGetCachedApi\<close> after
  \<open>d\<close> milliseconds whenever \<open>0 \<le> d < ttl\<close> (at once, \<open>d = 0\<close>, for every \<open>ttl > 0\<close>). When
  \<open>d < ttl\<close> does not hold the read returns \<open>null\<close>, and the entry is still in the store:
  the read returns no new state, and \<open>idbGet\<close> finds the entry there. Any stored entry
  whose time stamp \<open>t\<close> has \<open>now - t < ttl\<close> false reads as \<open>null\<close>.
\<close>

theorem ttl_cache_correct:
  "(\<not> localforage_fails s \<longrightarrow> date_now s \<noteq> 0 \<longrightarrow> 0 \<le> d \<longrightarrow> d < ttl \<longrightarrow>
      (\<exists>s1. idbSetCachedApi stringify key payload s = Inr s1 \<and>
            idbGetCachedApi key ttl (s1\<lparr>date_now := date_now s + d\<rparr>) = Inr payload)) \<and>
   (\<not> localforage_fails s \<longrightarrow> \<not> d < ttl \<longrightarrow>
      (\<exists>s1. idbSetCachedApi stringify key payload s = Inr s1 \<and>
            idbGetCachedApi key ttl (s1\<lparr>date_now := date_now s + d\<rparr>) = Inr JNull \<and>
            idbGet key (s1\<lparr>date_now := date_now s + d\<rparr>)
              = Inr (JObj [(''timestamp'', JNum (date_now s)), (''payload'', payload)]))) \<and>
   (idbGet key s = Inr entry \<longrightarrow> js_prop entry ''timestamp'' = JNum t \<longrightarrow> \<not> date_now s - t < ttl \<longrightarrow>
      idbGetCachedApi key ttl s = Inr JNull)"
  by (simp add: idbSetCachedApi_def idbSet_cases idbGetCachedApi_def idbGet_cases fresh_def)

theorem ttl_cache_correct_witness:
  "\<not> localforage_fails fresh_storage \<and> date_now fresh_storage \<noteq> 0 \<and> (0::int) \<le> 0 \<and> (0::int) < 3600000 \<and>
   \<not> (3600000::int) < 3600000 \<and>
   (\<exists>s1. idbSetCachedApi (\<lambda>v. []) ''chub:q:1'' (JStr ''page'') fresh_storage = Inr s1 \<and>
         idbGetCachedApi ''chub:q:1'' 3600000 (s1\<lparr>date_now := date_now fresh_storage + 0\<rparr>) = Inr (JStr ''page'')) \<and>
   (\<exists>s1. idbSetCachedApi (\<lambda>v. []) ''chub:q:1'' (JStr ''page'') fresh_storage = Inr s1 \<and>
         idbGetCachedApi ''chub:q:1'' 3600000 (s1\<lparr>date_now := date_now fresh_storage + 3600000\<rparr>) = Inr JNull \<and>
         idbGet ''chub:q:1'' (s1\<lparr>date_now := date_now fresh_storage + 3600000\<rparr>)
           = Inr (JObj [(''timestamp'', JNum (date_now fresh_storage)), (''payload'', JStr ''page'')])) \<and>
   idbGet ''k'' (fresh_storage\<lparr>localforage := [''k'' \<mapsto> JObj [(''timestamp'', JNum 5), (''payload'', JNum 7)]],
                              date_now := 105\<rparr>)
     = Inr (JObj [(''timestamp'', JNum 5), (''payload'', JNum 7)]) \<and>
   js_prop (JObj [(''timestamp'', JNum 5), (''payload'', JNum 7)]) ''timestamp'' = JNum 5 \<and>
   \<not> (105::int) - 5 < 100 \<and>
   idbGetCachedApi ''k'' 100
      (fresh_storage\<lparr>localforage := [''k'' \<mapsto> JObj [(''timestamp'', JNum 5), (''payload'', JNum 7)]],
                     date_now := 105\<rparr>) = Inr JNull"
proof -
  have h: "\<not> localforage_fails fresh_storage" "date_now fresh_storage \<noteq> 0"
    by (simp_all add: fresh_storage_def)
  have g: "idbGet ''k'' (fresh_storage\<lparr>localforage := [''k'' \<mapsto> JObj [(''timestamp'', JNum 5), (''payload'', JNum 7)]],
                              date_now := 105\<rparr>)
     = Inr (JObj [(''timestamp'', JNum 5), (''payload'', JNum 7)])"
    by (simp add: idbGet_cases fresh_storage_def)
  from h g
       ttl_cache_correct [where s = fresh_storage and d = 0 and ttl = 3600000 and stringify = "\<lambda>v. []"
                            and key = "''chub:q:1''" and payload = "JStr ''page''"]
       ttl_cache_correct [where s = fresh_storage and d = 3600000 and ttl = 3600000 and stringify = "\<lambda>v. []"
                            and key = "''chub:q:1''" and payload = "JStr ''page''"]
       ttl_cache_correct [where s = "fresh_storage\<lparr>localforage := [''k'' \<mapsto> JObj [(''timestamp'', JNum 5), (''payload'', JNum 7)]],
                                                  date_now := 105\<rparr>"
                            and key = "''k''" and ttl = 100 and t = 5
                            and entry = "JObj [(''timestamp'', JNum 5), (''payload'', JNum 7)]"]
  show ?thesis by simp
qed

subsection \<open>Initialization and migration\<close>

lemma migrate_key_returns: "\<exists>s'. migrate_key parse stringify key s = Inr s'"
  by (simp add: migrate_key_def idbGet_cases idbSet_cases Let_def split: option.splits)

lemma migrate_keys_returns: "\<exists>s'. migrate_keys parse stringify keys s = Inr s'"
proof (induction keys arbitrary: s)
  case Nil
  show ?case by simp
next
  case (Cons key keys)
  from migrate_key_returns [of parse stringify key s] obtain s1 where
    "migrate_key parse stringify key s = Inr s1" by blast
  with Cons [of s1] show ?case by simp
qed

text \<open>
  Initialization always returns, with the flag set, and a second run changes nothing:
  the idempotence half of C4.
\<close>

lemma initializeStorage_returns: "\<exists>s'. initializeStorage parse stringify s = Inr s'"
  using migrate_keys_returns [of parse stringify well_known_keys s]
  by (auto simp: initializeStorage_def)

lemma initializeStorage_sets_flag:
  "initializeStorage parse stringify s = Inr s' \<Longrightarrow> isStorageInitialized s'"
  by (auto simp: initializeStorage_def split: if_splits sum.splits)

lemma initializeStorage_twice:
  "initializeStorage parse stringify s = Inr s' \<Longrightarrow> initializeStorage parse stringify s' = Inr s'"
  by (frule initializeStorage_sets_flag) (simp add: initializeStorage_def)

text \<open>A durable value that is truthy is never written over.\<close>

lemma migrate_key_keeps_truthy:
  "idbGet key s = Inr v \<Longrightarrow> truthy v \<Longrightarrow> migrate_key parse stringify key s = Inr s' \<Longrightarrow>
     localforage s' = localforage s \<and> localStorage s' = localStorage s"
  by (auto simp: migrate_key_def Let_def split: if_splits option.splits)

text \<open>
  C4. Running \<open>initializeStorage\<close> where localForage holds \<open>false\<close> for
  \<open>botBrowser_searchCollapsed\<close> and \<open>localStorage\<close> still holds the legacy \<open>"true"\<close>:
  the test \<open>!idbVal\<close> takes the stored \<open>false\<close> for a missing value, the legacy value is
  written over it, and the mirror shows the panel collapsed. \<open>parse\<close> is \<open>JSON.parse\<close> on
  the one text it is given here.
\<close>

theorem migration_overwrites_false:
  "localforage expanded_storage ''botBrowser_searchCollapsed'' = Some (JBool False) \<and>
   (case initializeStorage [''true'' \<mapsto> JBool True] stringify expanded_storage of
      Inl e \<Rightarrow> False
    | Inr s' \<Rightarrow>
        localforage s' ''botBrowser_searchCollapsed'' = Some (JBool True) \<and>
        searchCollapsed (memoryCache s') = JBool True \<and>
        isStorageInitialized s')"
  by (simp add: initializeStorage_def well_known_keys_def migrate_key_def idbGet_cases idbSet_cases
                localStorage_getItem_def parse_item_def expanded_storage_def fresh_storage_def
                load_into_cache_def
                initial_memoryCache_def lastSearch_prefix_def Let_def)

subsection \<open>One call on a collection\<close>

lemma maxRecent_pos: "0 \<le> maxRecentlyViewed st \<Longrightarrow> 0 < maxRecent st"
  by (simp add: maxRecent_def)

lemma slice_when_longer:
  "0 \<le> m \<Longrightarrow> (if int (length u) > m then js_slice0 u m else u) = take (nat m) u"
  by (simp add: js_slice0_def)

lemma recent_entry_ok:
  "\<not> nullish crd \<Longrightarrow>
     \<exists>kvs. recent_entry crd = Inr (JObj kvs) \<and> js_prop (JObj kvs) ''id'' = js_prop crd ''id''"
  by (simp add: recent_entry_def Let_def)

lemma recent_entry_Inl: "recent_entry crd = Inl e \<Longrightarrow> nullish crd"
  by (simp add: recent_entry_def Let_def split: if_splits)

lemma addToRecentlyViewed_step:
  assumes en: "recentlyViewedEnabled st" and c: "\<not> nullish crd"
    and n: "\<forall>x\<in>set xs. \<not> nullish x" and m: "0 \<le> maxRecentlyViewed st"
  shows "\<exists>ys. addToRecentlyViewed st (JArr xs) crd s =
           (JArr ys,
            s\<lparr>memoryCache := (memoryCache s)\<lparr>recentlyViewed := JArr ys\<rparr>,
              scheduled := scheduled s @ [(''botBrowser_recentlyViewed'', JArr ys)]\<rparr>)
         \<and> (\<forall>y\<in>set ys. \<not> nullish y)
         \<and> map (\<lambda>c. js_prop c ''id'') ys =
             take (nat (maxRecent st))
               (js_prop crd ''id'' # filter (\<lambda>i. i \<noteq> js_prop crd ''id'') (map (\<lambda>c. js_prop c ''id'') xs))"
proof -
  from recent_entry_ok [OF c] obtain kvs where
    e: "recent_entry crd = Inr (JObj kvs)" and i: "js_prop (JObj kvs) ''id'' = js_prop crd ''id''"
    by blast
  let ?f = "filter (\<lambda>c. js_prop c ''id'' \<noteq> js_prop crd ''id'') xs"
  let ?ys = "take (nat (maxRecent st)) (JObj kvs # ?f)"
  from m have m': "0 \<le> maxRecent st" using maxRecent_pos [of st] by simp
  have run: "addToRecentlyViewed st (JArr xs) crd s =
           (JArr ?ys,
            s\<lparr>memoryCache := (memoryCache s)\<lparr>recentlyViewed := JArr ?ys\<rparr>,
              scheduled := scheduled s @ [(''botBrowser_recentlyViewed'', JArr ?ys)]\<rparr>)"
    using en e slice_when_longer [OF m', of "JObj kvs # ?f"]
    by (simp add: addToRecentlyViewed_def addToRecentlyViewed_try_def filter_ids_differ [OF c n]
                  Let_def schedule_def del: take_Cons')
  have nn: "\<forall>y\<in>set ?ys. \<not> nullish y"
    using n by (auto simp: nullish_def dest!: in_set_takeD)
  have ids: "map (\<lambda>c. js_prop c ''id'') ?ys =
             take (nat (maxRecent st))
               (js_prop crd ''id'' # filter (\<lambda>i. i \<noteq> js_prop crd ''id'') (map (\<lambda>c. js_prop c ''id'') xs))"
    unfolding take_map [symmetric] using i by (simp add: map_filter_ids del: js_prop.simps)
  from run nn ids show ?thesis by blast
qed

lemma addToRecentlyViewed_bound:
  assumes m: "0 \<le> maxRecentlyViewed st" and b: "int (length xs) \<le> maxRecent st"
  shows "\<exists>ys s'. addToRecentlyViewed st (JArr xs) crd s = (JArr ys, s') \<and> int (length ys) \<le> maxRecent st"
proof (cases "js_filter (id_differs crd) xs")
  case (Inl e)
  with b show ?thesis
    by (simp add: addToRecentlyViewed_def addToRecentlyViewed_try_def)
next
  case (Inr filtered)
  from js_filter_shorter [OF Inr] b have f: "int (length filtered) \<le> maxRecent st" by simp
  from m have m': "0 \<le> maxRecent st" using maxRecent_pos [of st] by simp
  show ?thesis
  proof (cases "recent_entry crd")
    case (Inl e)
    with Inr f b show ?thesis
      by (simp add: addToRecentlyViewed_def addToRecentlyViewed_try_def)
  next
    case (Inr entry)
    have "int (length (take (nat (maxRecent st)) (entry # filtered))) \<le> maxRecent st"
      using m' by simp
    with Inr \<open>js_filter (id_differs crd) xs = Inr filtered\<close> b
      slice_when_longer [OF m', of "entry # filtered"]
    show ?thesis
      by (simp add: addToRecentlyViewed_def addToRecentlyViewed_try_def Let_def del: take_Cons')
  qed
qed

lemma addToRecentlyViewed_try_ok:
  assumes c: "\<not> nullish crd" and n: "\<forall>x\<in>set xs. \<not> nullish x"
  shows "\<exists>r. addToRecentlyViewed_try st (JArr xs) crd s = Inr r"
proof -
  from recent_entry_ok [OF c] obtain kvs where "recent_entry crd = Inr (JObj kvs)" by blast
  with filter_ids_differ [OF c n] show ?thesis
    by (simp add: addToRecentlyViewed_try_def Let_def)
qed

lemma addToRecentlyViewed_try_Inl:
  "addToRecentlyViewed_try st rv crd s = Inl (e, v) \<Longrightarrow> v = rv"
  by (auto simp: addToRecentlyViewed_try_def Let_def as_array_Inr split: sum.splits
           dest!: recent_entry_Inl dest: js_filter_nullish_card)

lemma loadRecentlyViewed_within:
  "recentlyViewedEnabled st \<Longrightarrow> recentlyViewed (memoryCache s) = JArr xs \<Longrightarrow>
     int (length xs) \<le> maxRecent st \<Longrightarrow> loadRecentlyViewed st s = (JArr xs, s)"
  by (simp add: loadRecentlyViewed_def js_or_def)

lemma bookmark_entry_ok:
  "\<not> nullish crd \<Longrightarrow>
     \<exists>kvs. bookmark_entry crd stamp = Inr (JObj kvs) \<and> js_prop (JObj kvs) ''id'' = js_prop crd ''id''"
  by (simp add: bookmark_entry_def Let_def)

lemma loadBookmarks_saved: "loadBookmarks (saveBookmarks (JArr ys) s) = JArr ys"
  by (simp add: loadBookmarks_def saveBookmarks_def schedule_def js_or_def)

lemma addBookmark_step:
  assumes c: "\<not> nullish crd" and l: "loadBookmarks s = JArr xs" and n: "\<forall>x\<in>set xs. \<not> nullish x"
  shows "\<exists>ys s'. addBookmark crd s = (JArr ys, s') \<and> loadBookmarks s' = JArr ys
           \<and> (\<forall>y\<in>set ys. \<not> nullish y)
           \<and> map (\<lambda>c. js_prop c ''id'') ys =
               (if js_prop crd ''id'' \<in> set (map (\<lambda>c. js_prop c ''id'') xs)
                then map (\<lambda>c. js_prop c ''id'') xs
                else js_prop crd ''id'' # map (\<lambda>c. js_prop c ''id'') xs)"
proof (cases "js_prop crd ''id'' \<in> set (map (\<lambda>c. js_prop c ''id'') xs)")
  case True
  with l n js_some_ids [OF c n] have "addBookmark crd s = (JArr xs, s)"
    by (simp add: addBookmark_def addBookmark_try_def)
  moreover have "map (\<lambda>c. js_prop c ''id'') xs =
               (if js_prop crd ''id'' \<in> set (map (\<lambda>c. js_prop c ''id'') xs)
                then map (\<lambda>c. js_prop c ''id'') xs
                else js_prop crd ''id'' # map (\<lambda>c. js_prop c ''id'') xs)"
    using True by (simp only: if_True)
  ultimately show ?thesis using l n by (intro exI [of _ xs] exI [of _ s] conjI)
next
  case False
  from bookmark_entry_ok [OF c, of "date_iso s"] obtain kvs where
    e: "bookmark_entry crd (date_iso s) = Inr (JObj kvs)"
    and i: "js_prop (JObj kvs) ''id'' = js_prop crd ''id''" by blast
  from False l e js_some_ids [OF c n]
  have run: "addBookmark crd s = (JArr (JObj kvs # xs), saveBookmarks (JArr (JObj kvs # xs)) s)"
    by (simp add: addBookmark_def addBookmark_try_def Let_def)
  have nn: "\<forall>y\<in>set (JObj kvs # xs). \<not> nullish y"
    using n by (simp add: nullish_def)
  have "map (\<lambda>c. js_prop c ''id'') (JObj kvs # xs) = js_prop crd ''id'' # map (\<lambda>c. js_prop c ''id'') xs"
    using i by (simp del: js_prop.simps)
  then have ids: "map (\<lambda>c. js_prop c ''id'') (JObj kvs # xs) =
               (if js_prop crd ''id'' \<in> set (map (\<lambda>c. js_prop c ''id'') xs)
                then map (\<lambda>c. js_prop c ''id'') xs
                else js_prop crd ''id'' # map (\<lambda>c. js_prop c ''id'') xs)"
    using False by (simp only: if_False)
  from run loadBookmarks_saved [of "JObj kvs # xs" s] nn ids show ?thesis
    by (intro exI [of _ "JObj kvs # xs"] exI [of _ "saveBookmarks (JArr (JObj kvs # xs)) s"] conjI)
qed

lemma import_record_ok:
  "importable crd \<Longrightarrow>
     \<exists>kvs. import_record crd type stamp = Inr (JObj kvs) \<and> js_prop (JObj kvs) ''id'' = js_prop crd ''id''"
  by (auto simp: importable_def card_ok_def import_record_def Let_def split: jsval.splits)

lemma keep_500_take:
  "keep_500 cs s = (JArr (take 500 cs), saveImportedCards (JArr (take 500 cs)) s)"
  by (simp add: keep_500_def js_slice0_def Let_def)

lemma loadImportedCards_saved: "loadImportedCards (saveImportedCards (JArr ys) s) = JArr ys"
  by (simp add: loadImportedCards_def saveImportedCards_def schedule_def js_or_def)

lemma trackImportedCard_step:
  assumes c: "importable crd" and l: "loadImportedCards s = JArr cs"
    and n: "\<forall>x\<in>set cs. is_object x" and d: "distinct (map (\<lambda>c. js_prop c ''id'') cs)"
  shows "\<exists>ys. trackImportedCard crd type s = (JArr ys, saveImportedCards (JArr ys) s)
           \<and> (\<forall>y\<in>set ys. is_object y)
           \<and> map (\<lambda>c. js_prop c ''id'') ys =
               take 500 (js_prop crd ''id'' #
                         filter (\<lambda>i. i \<noteq> js_prop crd ''id'') (map (\<lambda>c. js_prop c ''id'') cs))"
proof -
  from c have cn: "\<not> nullish crd" by (simp add: importable_def card_ok_def)
  from n have nn: "\<forall>x\<in>set cs. \<not> nullish x" by (simp add: is_object_not_nullish)
  let ?ids = "map (\<lambda>c. js_prop c ''id'') cs"
  show ?thesis
  proof (cases "js_prop crd ''id'' \<in> set ?ids")
    case False
    from import_record_ok [OF c, of type "date_iso s"] obtain kvs where
      r: "import_record crd type (date_iso s) = Inr (JObj kvs)"
      and i: "js_prop (JObj kvs) ''id'' = js_prop crd ''id''" by blast
    let ?ys = "take 500 (JObj kvs # cs)"
    from l r js_findIndex_none [OF cn nn False]
    have run: "trackImportedCard crd type s = (JArr ?ys, saveImportedCards (JArr ?ys) s)"
      by (simp add: trackImportedCard_def trackImportedCard_try_def keep_500_take del: take_Cons')
    have obj: "\<forall>y\<in>set ?ys. is_object y"
      using n by (auto dest!: in_set_takeD)
    from False have "\<forall>i\<in>set ?ids. i \<noteq> js_prop crd ''id''" by blast
    then have "filter (\<lambda>i. i \<noteq> js_prop crd ''id'') ?ids = ?ids"
      by (rule filter_True)
    then have ids: "map (\<lambda>c. js_prop c ''id'') ?ys =
               take 500 (js_prop crd ''id'' # filter (\<lambda>i. i \<noteq> js_prop crd ''id'') ?ids)"
      unfolding take_map [symmetric] using i by (simp del: js_prop.simps take_Cons')
    from run obj ids show ?thesis by (intro exI [of _ ?ys] conjI)
  next
    case True
    from js_findIndex_some [OF cn nn True] obtain k where
      f: "js_findIndex (id_equals crd) cs = Inr (Some k)" and k: "k < length cs"
      and ik: "js_prop (cs ! k) ''id'' = js_prop crd ''id''" by blast
    from n k have "is_object (cs ! k)" by simp
    from set_prop_object [OF this, of "JStr (date_iso s)"] obtain kvs where
      sp: "set_prop (cs ! k) ''imported_at'' (JStr (date_iso s)) = Inr (JObj kvs)"
      and i: "js_prop (JObj kvs) ''id'' = js_prop (cs ! k) ''id''" by blast
    let ?ys = "take 500 (JObj kvs # take k cs @ drop (Suc k) cs)"
    from l f sp
    have run: "trackImportedCard crd type s = (JArr ?ys, saveImportedCards (JArr ?ys) s)"
      by (simp add: trackImportedCard_def trackImportedCard_try_def keep_500_take del: take_Cons')
    have obj: "\<forall>y\<in>set ?ys. is_object y"
      using n by (auto dest!: in_set_takeD in_set_dropD)
    have "take k ?ids @ drop (Suc k) ?ids = filter (\<lambda>i. i \<noteq> ?ids ! k) ?ids"
      using remove_nth_distinct [OF d] k by simp
    moreover have "?ids ! k = js_prop crd ''id''" using k ik by simp
    ultimately have "map (\<lambda>c. js_prop c ''id'') (take k cs @ drop (Suc k) cs)
                     = filter (\<lambda>i. i \<noteq> js_prop crd ''id'') ?ids"
      by (simp add: take_map drop_map)
    then have ids: "map (\<lambda>c. js_prop c ''id'') ?ys =
               take 500 (js_prop crd ''id'' # filter (\<lambda>i. i \<noteq> js_prop crd ''id'') ?ids)"
      unfolding take_map [symmetric] using i ik by (simp del: js_prop.simps take_Cons')
    from run obj ids show ?thesis by (intro exI [of _ ?ys] conjI)
  qed
qed

lemma trackImportedCard_front:
  assumes c: "importable crd" and l: "loadImportedCards s = JArr cs"
    and n: "\<forall>x\<in>set cs. is_object x" and d: "distinct (map (\<lambda>c. js_prop c ''id'') cs)"
  shows "\<exists>y ys. trackImportedCard crd type s = (JArr (y # ys), saveImportedCards (JArr (y # ys)) s)
           \<and> js_prop y ''id'' = js_prop crd ''id''"
proof -
  from trackImportedCard_step [OF c l n d, of type] obtain zs where
    run: "trackImportedCard crd type s = (JArr zs, saveImportedCards (JArr zs) s)"
    and ids: "map (\<lambda>c. js_prop c ''id'') zs =
               take 500 (js_prop crd ''id'' #
                         filter (\<lambda>i. i \<noteq> js_prop crd ''id'') (map (\<lambda>c. js_prop c ''id'') cs))"
    by blast
  from ids obtain y ys where "zs = y # ys" "js_prop y ''id'' = js_prop crd ''id''"
    by (cases zs) auto
  with run show ?thesis by blast
qed

text \<open>
  A card with a new id whose record cannot be built (no preview, and a description that
  is truthy but not a string, so that \<open>substring\<close> is missing on line 339) is not
  tracked: the exception is caught and the history stays as it was.
\<close>

lemma import_record_throws:
  "card_ok crd \<Longrightarrow> \<not> importable crd \<Longrightarrow> import_record crd type stamp = Inl TypeError"
  by (auto simp: importable_def card_ok_def import_record_def Let_def split: jsval.splits)

lemma trackImportedCard_unimportable:
  assumes c: "card_ok crd" and u: "\<not> importable crd" and l: "loadImportedCards s = JArr cs"
    and n: "\<forall>x\<in>set cs. \<not> nullish x"
    and new: "js_prop crd ''id'' \<notin> set (map (\<lambda>c. js_prop c ''id'') cs)"
  shows "trackImportedCard crd type s = (JArr cs, s)"
proof -
  from c have cn: "\<not> nullish crd" by (simp add: card_ok_def)
  from l js_findIndex_none [OF cn n new] import_record_throws [OF c u, of type "date_iso s"]
  show ?thesis
    by (simp add: trackImportedCard_def trackImportedCard_try_def)
qed

subsection \<open>Sequences of insertions\<close>

lemma view_cards_snoc:
  "view_cards st (cards @ [crd]) start =
     addToRecentlyViewed st (fst (view_cards st cards start)) crd (snd (view_cards st cards start))"
  by (simp add: view_cards_def)

lemma view_cards_ids:
  assumes en: "recentlyViewedEnabled st" and m: "0 \<le> maxRecentlyViewed st"
  shows "\<forall>c\<in>set cards. \<not> nullish c \<Longrightarrow>
     \<exists>ys s'. view_cards st cards (JArr [], s) = (JArr ys, s')
        \<and> (\<forall>y\<in>set ys. \<not> nullish y)
        \<and> (cards \<noteq> [] \<longrightarrow> recentlyViewed (memoryCache s') = JArr ys)
        \<and> map (\<lambda>c. js_prop c ''id'') ys =
            take (nat (maxRecent st)) (rev (remdups (map (\<lambda>c. js_prop c ''id'') cards)))"
proof (induction cards rule: rev_induct)
  case Nil
  show ?case by (simp add: view_cards_def)
next
  case (snoc crd cards)
  then obtain ys s' where run: "view_cards st cards (JArr [], s) = (JArr ys, s')"
    and nn: "\<forall>y\<in>set ys. \<not> nullish y"
    and ids: "map (\<lambda>c. js_prop c ''id'') ys =
            take (nat (maxRecent st)) (rev (remdups (map (\<lambda>c. js_prop c ''id'') cards)))"
    by auto
  from snoc.prems have c: "\<not> nullish crd" by simp
  from addToRecentlyViewed_step [OF en c nn m, of s'] obtain zs where
    step: "addToRecentlyViewed st (JArr ys) crd s' =
           (JArr zs,
            s'\<lparr>memoryCache := (memoryCache s')\<lparr>recentlyViewed := JArr zs\<rparr>,
               scheduled := scheduled s' @ [(''botBrowser_recentlyViewed'', JArr zs)]\<rparr>)"
    and nz: "\<forall>y\<in>set zs. \<not> nullish y"
    and idz: "map (\<lambda>c. js_prop c ''id'') zs =
             take (nat (maxRecent st))
               (js_prop crd ''id'' # filter (\<lambda>i. i \<noteq> js_prop crd ''id'') (map (\<lambda>c. js_prop c ''id'') ys))"
    by blast
  have pos: "0 < nat (maxRecent st)" using maxRecent_pos [OF m] by simp
  have "map (\<lambda>c. js_prop c ''id'') zs =
          take (nat (maxRecent st)) (rev (remdups (map (\<lambda>c. js_prop c ''id'') (cards @ [crd]))))"
    using upsert_front_ids [OF pos, of "js_prop crd ''id''" "map (\<lambda>c. js_prop c ''id'') cards"]
    by (simp only: idz ids map_append list.map)
  with run step nz show ?case
    by (simp add: view_cards_snoc)
qed

lemma view_cards_bound:
  assumes m: "0 \<le> maxRecentlyViewed st"
  shows "\<exists>ys s'. view_cards st cards (JArr [], s) = (JArr ys, s') \<and> int (length ys) \<le> maxRecent st"
proof (induction cards rule: rev_induct)
  case Nil
  show ?case using maxRecent_pos [OF m] by (simp add: view_cards_def)
next
  case (snoc crd cards)
  then obtain ys s' where run: "view_cards st cards (JArr [], s) = (JArr ys, s')"
    and b: "int (length ys) \<le> maxRecent st" by blast
  from addToRecentlyViewed_bound [OF m b, of crd s'] run show ?case
    by (simp add: view_cards_snoc)
qed

lemma bookmark_cards_snoc:
  "bookmark_cards (cards @ [crd]) s = addBookmark crd (snd (bookmark_cards cards s))"
  by (simp add: bookmark_cards_def)

lemma bookmark_cards_ids:
  assumes l: "loadBookmarks s = JArr []"
  shows "\<forall>c\<in>set cards. \<not> nullish c \<Longrightarrow>
     \<exists>ys s'. bookmark_cards cards s = (JArr ys, s') \<and> loadBookmarks s' = JArr ys
        \<and> (\<forall>y\<in>set ys. \<not> nullish y)
        \<and> map (\<lambda>c. js_prop c ''id'') ys = remdups (rev (map (\<lambda>c. js_prop c ''id'') cards))"
proof (induction cards rule: rev_induct)
  case Nil
  show ?case using l by (simp add: bookmark_cards_def)
next
  case (snoc crd cards)
  then obtain ys s' where run: "bookmark_cards cards s = (JArr ys, s')"
    and l': "loadBookmarks s' = JArr ys"
    and nn: "\<forall>y\<in>set ys. \<not> nullish y"
    and ids: "map (\<lambda>c. js_prop c ''id'') ys = remdups (rev (map (\<lambda>c. js_prop c ''id'') cards))"
    by auto
  from snoc.prems have c: "\<not> nullish crd" by simp
  from addBookmark_step [OF c l' nn] obtain zs s'' where
    step: "addBookmark crd s' = (JArr zs, s'')" and lz: "loadBookmarks s'' = JArr zs"
    and nz: "\<forall>y\<in>set zs. \<not> nullish y"
    and idz: "map (\<lambda>c. js_prop c ''id'') zs =
               (if js_prop crd ''id'' \<in> set (map (\<lambda>c. js_prop c ''id'') ys)
                then map (\<lambda>c. js_prop c ''id'') ys
                else js_prop crd ''id'' # map (\<lambda>c. js_prop c ''id'') ys)"
    by blast
  have "map (\<lambda>c. js_prop c ''id'') zs = remdups (rev (map (\<lambda>c. js_prop c ''id'') (cards @ [crd])))"
    unfolding idz ids by simp
  with run step lz nz show ?case
    by (simp add: bookmark_cards_snoc)
qed

lemma import_cards_snoc:
  "import_cards type (cards @ [crd]) s = trackImportedCard crd type (snd (import_cards type cards s))"
  by (simp add: import_cards_def)

lemma import_cards_ids:
  assumes l: "loadImportedCards s = JArr []"
  shows "\<forall>c\<in>set cards. importable c \<Longrightarrow>
     \<exists>ys s'. import_cards type cards s = (JArr ys, s') \<and> loadImportedCards s' = JArr ys
        \<and> (\<forall>y\<in>set ys. is_object y)
        \<and> map (\<lambda>c. js_prop c ''id'') ys = take 500 (rev (remdups (map (\<lambda>c. js_prop c ''id'') cards)))"
proof (induction cards rule: rev_induct)
  case Nil
  show ?case using l by (simp add: import_cards_def)
next
  case (snoc crd cards)
  then obtain ys s' where run: "import_cards type cards s = (JArr ys, s')"
    and l': "loadImportedCards s' = JArr ys"
    and nn: "\<forall>y\<in>set ys. is_object y"
    and ids: "map (\<lambda>c. js_prop c ''id'') ys = take 500 (rev (remdups (map (\<lambda>c. js_prop c ''id'') cards)))"
    by auto
  from snoc.prems have c: "importable crd" by simp
  have d: "distinct (map (\<lambda>c. js_prop c ''id'') ys)"
    unfolding ids by (simp add: distinct_take)
  from trackImportedCard_step [OF c l' nn d, of type] obtain zs where
    step: "trackImportedCard crd type s' = (JArr zs, saveImportedCards (JArr zs) s')"
    and nz: "\<forall>y\<in>set zs. is_object y"
    and idz: "map (\<lambda>c. js_prop c ''id'') zs =
               take 500 (js_prop crd ''id'' #
                         filter (\<lambda>i. i \<noteq> js_prop crd ''id'') (map (\<lambda>c. js_prop c ''id'') ys))"
    by blast
  have "map (\<lambda>c. js_prop c ''id'') zs =
          take 500 (rev (remdups (map (\<lambda>c. js_prop c ''id'') (cards @ [crd]))))"
    using upsert_front_ids [of 500 "js_prop crd ''id''" "map (\<lambda>c. js_prop c ''id'') cards"]
    by (simp only: idz ids map_append list.map)
  with run step nz loadImportedCards_saved [of zs s'] show ?case
    by (simp add: import_cards_snoc)
qed

text \<open>
  C1, as amended. The cards are values other than \<open>null\<close> and \<open>undefined\<close> whose id is
  a primitive value (\<open>card_ok\<close>); for \<open>trackImportedCard\<close> they are moreover
  \<open>importable\<close>: the preview is truthy, or the description is falsy, or the description
  is a string. Starting from an empty collection, no collection ever holds an id twice.
  After \<open>addToRecentlyViewed\<close> (feature enabled, maximum not negative) and after
  \<open>trackImportedCard\<close> the ids are the distinct ids of the cards, the most recently
  inserted first, cut to the effective maximum \<open>maxRecent st\<close>, or to 500. \<open>addBookmark\<close>
  leaves a collection that already has the id as it is: the ids are in the order of their
  first insertion, the newest first, so that a, b, a gives b, a.
\<close>

theorem upsert_front_dedup:
  "(recentlyViewedEnabled st \<longrightarrow> 0 \<le> maxRecentlyViewed st \<longrightarrow> (\<forall>c\<in>set cards. card_ok c) \<longrightarrow>
      ids_of (fst (view_cards st cards (JArr [], s)))
        = take (nat (maxRecent st)) (rev (remdups (map (\<lambda>c. js_prop c ''id'') cards))) \<and>
      distinct (ids_of (fst (view_cards st cards (JArr [], s))))) \<and>
   (loadImportedCards s = JArr [] \<longrightarrow> (\<forall>c\<in>set cards. importable c) \<longrightarrow>
      ids_of (fst (import_cards type cards s))
        = take 500 (rev (remdups (map (\<lambda>c. js_prop c ''id'') cards))) \<and>
      distinct (ids_of (fst (import_cards type cards s)))) \<and>
   (loadBookmarks s = JArr [] \<longrightarrow> (\<forall>c\<in>set cards. card_ok c) \<longrightarrow>
      ids_of (fst (bookmark_cards cards s)) = remdups (rev (map (\<lambda>c. js_prop c ''id'') cards)) \<and>
      distinct (ids_of (fst (bookmark_cards cards s))))"
proof -
  have v: "recentlyViewedEnabled st \<longrightarrow> 0 \<le> maxRecentlyViewed st \<longrightarrow> (\<forall>c\<in>set cards. card_ok c) \<longrightarrow>
      ids_of (fst (view_cards st cards (JArr [], s)))
        = take (nat (maxRecent st)) (rev (remdups (map (\<lambda>c. js_prop c ''id'') cards))) \<and>
      distinct (ids_of (fst (view_cards st cards (JArr [], s))))"
  proof (intro impI)
    assume en: "recentlyViewedEnabled st" and m: "0 \<le> maxRecentlyViewed st"
      and ok: "\<forall>c\<in>set cards. card_ok c"
    from ok have "\<forall>c\<in>set cards. \<not> nullish c" by (simp add: card_ok_not_nullish)
    from view_cards_ids [OF en m this, of s] obtain ys s' where
      "view_cards st cards (JArr [], s) = (JArr ys, s')"
      "map (\<lambda>c. js_prop c ''id'') ys =
         take (nat (maxRecent st)) (rev (remdups (map (\<lambda>c. js_prop c ''id'') cards)))"
      by blast
    then have "ids_of (fst (view_cards st cards (JArr [], s)))
        = take (nat (maxRecent st)) (rev (remdups (map (\<lambda>c. js_prop c ''id'') cards)))"
      by (simp add: ids_of_def)
    then show "ids_of (fst (view_cards st cards (JArr [], s)))
        = take (nat (maxRecent st)) (rev (remdups (map (\<lambda>c. js_prop c ''id'') cards))) \<and>
      distinct (ids_of (fst (view_cards st cards (JArr [], s))))"
      by (simp add: distinct_take)
  qed
  have i: "loadImportedCards s = JArr [] \<longrightarrow> (\<forall>c\<in>set cards. importable c) \<longrightarrow>
      ids_of (fst (import_cards type cards s))
        = take 500 (rev (remdups (map (\<lambda>c. js_prop c ''id'') cards))) \<and>
      distinct (ids_of (fst (import_cards type cards s)))"
  proof (intro impI)
    assume l: "loadImportedCards s = JArr []" and ok: "\<forall>c\<in>set cards. importable c"
    from import_cards_ids [OF l ok, of type] obtain ys s' where
      "import_cards type cards s = (JArr ys, s')"
      "map (\<lambda>c. js_prop c ''id'') ys = take 500 (rev (remdups (map (\<lambda>c. js_prop c ''id'') cards)))"
      by blast
    then have "ids_of (fst (import_cards type cards s))
        = take 500 (rev (remdups (map (\<lambda>c. js_prop c ''id'') cards)))"
      by (simp add: ids_of_def)
    then show "ids_of (fst (import_cards type cards s))
        = take 500 (rev (remdups (map (\<lambda>c. js_prop c ''id'') cards))) \<and>
      distinct (ids_of (fst (import_cards type cards s)))"
      by (simp add: distinct_take)
  qed
  have b: "loadBookmarks s = JArr [] \<longrightarrow> (\<forall>c\<in>set cards. card_ok c) \<longrightarrow>
      ids_of (fst (bookmark_cards cards s)) = remdups (rev (map (\<lambda>c. js_prop c ''id'') cards)) \<and>
      distinct (ids_of (fst (bookmark_cards cards s)))"
  proof (intro impI)
    assume l: "loadBookmarks s = JArr []" and ok: "\<forall>c\<in>set cards. card_ok c"
    from ok have "\<forall>c\<in>set cards. \<not> nullish c" by (simp add: card_ok_not_nullish)
    from bookmark_cards_ids [OF l this] obtain ys s' where
      "bookmark_cards cards s = (JArr ys, s')"
      "map (\<lambda>c. js_prop c ''id'') ys = remdups (rev (map (\<lambda>c. js_prop c ''id'') cards))"
      by blast
    then have "ids_of (fst (bookmark_cards cards s)) = remdups (rev (map (\<lambda>c. js_prop c ''id'') cards))"
      by (simp add: ids_of_def)
    then show "ids_of (fst (bookmark_cards cards s)) = remdups (rev (map (\<lambda>c. js_prop c ''id'') cards)) \<and>
      distinct (ids_of (fst (bookmark_cards cards s)))"
      by simp
  qed
  from v i b show ?thesis by blast
qed

theorem upsert_front_dedup_witness:
  "recentlyViewedEnabled \<lparr>persistentSearchEnabled = True, recentlyViewedEnabled = True, maxRecentlyViewed = 10\<rparr> \<and>
   card_ok card_a \<and> card_ok card_b \<and> importable card_a \<and> importable card_b \<and>
   loadImportedCards fresh_storage = JArr [] \<and> loadBookmarks fresh_storage = JArr [] \<and>
   ids_of (fst (view_cards
      \<lparr>persistentSearchEnabled = True, recentlyViewedEnabled = True, maxRecentlyViewed = 10\<rparr>
      [card_a, card_b, card_a] (JArr [], fresh_storage))) = [JStr ''a'', JStr ''b''] \<and>
   ids_of (fst (import_cards (JStr ''character'') [card_a, card_b, card_a] fresh_storage))
     = [JStr ''a'', JStr ''b''] \<and>
   ids_of (fst (bookmark_cards [card_a, card_b, card_a] fresh_storage)) = [JStr ''b'', JStr ''a'']"
proof -
  have ok: "card_ok card_a" "card_ok card_b" "importable card_a" "importable card_b"
    by (simp_all add: importable_def card_ok_def nullish_def card_a_def card_b_def)
  have l: "loadImportedCards fresh_storage = JArr []" "loadBookmarks fresh_storage = JArr []"
    by (simp_all add: loadImportedCards_def loadBookmarks_def fresh_storage_def
                      initial_memoryCache_def js_or_def)
  have ids: "map (\<lambda>c. js_prop c ''id'') [card_a, card_b, card_a] = [JStr ''a'', JStr ''b'', JStr ''a'']"
    by (simp add: card_a_def card_b_def)
  from upsert_front_dedup
         [of "\<lparr>persistentSearchEnabled = True, recentlyViewedEnabled = True, maxRecentlyViewed = 10\<rparr>"
             "[card_a, card_b, card_a]" fresh_storage "JStr ''character''"]
       ok l
  show ?thesis by (simp add: ids maxRecent_def del: list.map)
qed

text \<open>
  The claim as it stands fails on its own example: bookmarking a, b and a again leaves
  b in front of a. It fails also for a card with a primitive id that cannot be imported:
  with the number 5 for a description and no preview, tracking the card leaves the
  import history empty.
\<close>

theorem upsert_front_dedup_counterexample:
  "ids_of (fst (bookmark_cards [card_a, card_b, card_a] fresh_storage)) = [JStr ''b'', JStr ''a''] \<and>
   ids_of (fst (bookmark_cards [card_a, card_b, card_a] fresh_storage)) \<noteq> [JStr ''a'', JStr ''b''] \<and>
   card_ok (JObj [(''id'', JStr ''n''), (''description'', JNum 5)]) \<and>
   ids_of (fst (import_cards (JStr ''character'')
                  [JObj [(''id'', JStr ''n''), (''description'', JNum 5)]] fresh_storage)) = [] \<and>
   ids_of (fst (import_cards (JStr ''character'')
                  [JObj [(''id'', JStr ''n''), (''description'', JNum 5)]] fresh_storage)) \<noteq> [JStr ''n'']"
proof -
  have b: "ids_of (fst (bookmark_cards [card_a, card_b, card_a] fresh_storage)) = [JStr ''b'', JStr ''a'']"
    by (simp add: card_a_def card_b_def bookmark_cards_def addBookmark_def addBookmark_try_def
                  loadBookmarks_def fresh_storage_def initial_memoryCache_def js_or_def id_equals_def
                  get_prop_def nullish_def bookmark_entry_def saveBookmarks_def schedule_def
                  ids_of_def Let_def)
  have c: "card_ok (JObj [(''id'', JStr ''n''), (''description'', JNum 5)])"
    by (simp add: card_ok_def nullish_def)
  have u: "\<not> importable (JObj [(''id'', JStr ''n''), (''description'', JNum 5)])"
    by (simp add: importable_def)
  have l: "loadImportedCards fresh_storage = JArr []"
    by (simp add: loadImportedCards_def fresh_storage_def initial_memoryCache_def js_or_def)
  from trackImportedCard_unimportable [OF c u l, of "JStr ''character''"] l
  have i: "ids_of (fst (import_cards (JStr ''character'')
                  [JObj [(''id'', JStr ''n''), (''description'', JNum 5)]] fresh_storage)) = []"
    by (simp add: import_cards_def ids_of_def)
  from b c i show ?thesis by simp
qed

text \<open>
  C2, as amended. For a configured maximum \<open>M \<ge> 0\<close> the effective maximum is \<open>maxRecent st\<close>:
  \<open>M\<close> itself when \<open>M > 0\<close>, and 10 when \<open>M = 0\<close>. Starting from the empty collection,
  after every call of any sequence of \<open>addToRecentlyViewed\<close> calls, whatever the cards,
  the collection returned is an array of at most \<open>maxRecent st\<close> elements; with the
  feature enabled and well-formed cards its ids are the \<open>maxRecent st\<close> most recently
  inserted distinct ids, the most recent first.
\<close>

theorem recently_viewed_bound:
  "0 \<le> maxRecentlyViewed st \<Longrightarrow>
     (\<exists>ys s'. view_cards st (take n cards) (JArr [], s) = (JArr ys, s')
               \<and> int (length ys) \<le> maxRecent st) \<and>
     (recentlyViewedEnabled st \<longrightarrow> (\<forall>c\<in>set cards. card_ok c) \<longrightarrow>
        ids_of (fst (view_cards st cards (JArr [], s)))
          = take (nat (maxRecent st)) (rev (remdups (map (\<lambda>c. js_prop c ''id'') cards)))) \<and>
     maxRecent st = (if maxRecentlyViewed st = 0 then 10 else maxRecentlyViewed st)"
proof -
  assume m: "0 \<le> maxRecentlyViewed st"
  have ids: "recentlyViewedEnabled st \<longrightarrow> (\<forall>c\<in>set cards. card_ok c) \<longrightarrow>
        ids_of (fst (view_cards st cards (JArr [], s)))
          = take (nat (maxRecent st)) (rev (remdups (map (\<lambda>c. js_prop c ''id'') cards)))"
  proof (intro impI)
    assume en: "recentlyViewedEnabled st" and ok: "\<forall>c\<in>set cards. card_ok c"
    from ok have "\<forall>c\<in>set cards. \<not> nullish c" by (simp add: card_ok_not_nullish)
    from view_cards_ids [OF en m this, of s] obtain ys s' where
      "view_cards st cards (JArr [], s) = (JArr ys, s')"
      "map (\<lambda>c. js_prop c ''id'') ys =
         take (nat (maxRecent st)) (rev (remdups (map (\<lambda>c. js_prop c ''id'') cards)))"
      by blast
    then show "ids_of (fst (view_cards st cards (JArr [], s)))
        = take (nat (maxRecent st)) (rev (remdups (map (\<lambda>c. js_prop c ''id'') cards)))"
      by (simp add: ids_of_def)
  qed
  from view_cards_bound [OF m, of "take n cards" s] ids show ?thesis
    by (simp add: maxRecent_def)
qed

theorem recently_viewed_bound_witness:
  "0 \<le> maxRecentlyViewed \<lparr>persistentSearchEnabled = True, recentlyViewedEnabled = True, maxRecentlyViewed = 2\<rparr> \<and>
   recentlyViewedEnabled \<lparr>persistentSearchEnabled = True, recentlyViewedEnabled = True, maxRecentlyViewed = 2\<rparr> \<and>
   card_ok card_a \<and> card_ok card_b \<and> card_ok card_c \<and>
   (\<exists>ys s'. view_cards
       \<lparr>persistentSearchEnabled = True, recentlyViewedEnabled = True, maxRecentlyViewed = 2\<rparr>
       (take 3 [card_a, card_b, card_c]) (JArr [], fresh_storage) = (JArr ys, s')
       \<and> int (length ys) \<le> 2) \<and>
   ids_of (fst (view_cards
      \<lparr>persistentSearchEnabled = True, recentlyViewedEnabled = True, maxRecentlyViewed = 2\<rparr>
      [card_a, card_b, card_c] (JArr [], fresh_storage))) = [JStr ''c'', JStr ''b'']"
proof -
  have ok: "card_ok card_a" "card_ok card_b" "card_ok card_c"
    by (simp_all add: card_ok_def nullish_def card_a_def card_b_def card_c_def)
  have ids: "map (\<lambda>c. js_prop c ''id'') [card_a, card_b, card_c] = [JStr ''a'', JStr ''b'', JStr ''c'']"
    by (simp add: card_a_def card_b_def card_c_def)
  from recently_viewed_bound
         [of "\<lparr>persistentSearchEnabled = True, recentlyViewedEnabled = True, maxRecentlyViewed = 2\<rparr>"
             3 "[card_a, card_b, card_c]" fresh_storage]
       ok
  show ?thesis by (simp add: ids maxRecent_def del: list.map)
qed

text \<open>
  The claim as it stands fails for the maximum 0: one card viewed, one card kept.
\<close>

theorem recently_viewed_bound_counterexample:
  "maxRecentlyViewed \<lparr>persistentSearchEnabled = True, recentlyViewedEnabled = True, maxRecentlyViewed = 0\<rparr> = 0 \<and>
   ids_of (fst (view_cards
      \<lparr>persistentSearchEnabled = True, recentlyViewedEnabled = True, maxRecentlyViewed = 0\<rparr>
      [card_a] (JArr [], fresh_storage))) = [JStr ''a''] \<and>
   \<not> int (length (ids_of (fst (view_cards
      \<lparr>persistentSearchEnabled = True, recentlyViewedEnabled = True, maxRecentlyViewed = 0\<rparr>
      [card_a] (JArr [], fresh_storage)))))
      \<le> maxRecentlyViewed \<lparr>persistentSearchEnabled = True, recentlyViewedEnabled = True, maxRecentlyViewed = 0\<rparr>"
  by (simp add: card_a_def view_cards_def addToRecentlyViewed_def addToRecentlyViewed_try_def
                recent_entry_def nullish_def maxRecent_def js_slice0_def schedule_def ids_of_def Let_def)

subsection \<open>Removal\<close>

text \<open>
  C9. \<open>removeBookmark\<close> and \<open>removeImportedCard\<close> on a collection without the id return
  the collection as it is and leave the whole state, the writes in flight included, as it
  was. On a collection that has the id they return the elements with another id, in
  their order, put that array in the mirror and start one durable write of it. The id
  asked for is a primitive value, as ids are.
\<close>

theorem remove_frame:
  "primitive cardId \<Longrightarrow>
   (loadBookmarks s = JArr bs \<longrightarrow>
      (\<forall>b\<in>set bs. \<not> nullish b \<longrightarrow> js_prop b ''id'' \<noteq> cardId) \<longrightarrow>
        removeBookmark cardId s = (JArr bs, s)) \<and>
   (loadBookmarks s = JArr bs \<longrightarrow>
      (\<forall>b\<in>set bs. \<not> nullish b) \<longrightarrow> (\<exists>b\<in>set bs. js_prop b ''id'' = cardId) \<longrightarrow>
        removeBookmark cardId s =
          (JArr (filter (\<lambda>b. js_prop b ''id'' \<noteq> cardId) bs),
           s\<lparr>memoryCache := (memoryCache s)\<lparr>bookmarks := JArr (filter (\<lambda>b. js_prop b ''id'' \<noteq> cardId) bs)\<rparr>,
             scheduled := scheduled s @
               [(''botBrowser_bookmarks'', JArr (filter (\<lambda>b. js_prop b ''id'' \<noteq> cardId) bs))]\<rparr>)) \<and>
   (loadImportedCards s = JArr cs \<longrightarrow>
      (\<forall>c\<in>set cs. \<not> nullish c \<longrightarrow> js_prop c ''id'' \<noteq> cardId) \<longrightarrow>
        removeImportedCard cardId s = (JArr cs, s)) \<and>
   (loadImportedCards s = JArr cs \<longrightarrow>
      (\<forall>c\<in>set cs. \<not> nullish c) \<longrightarrow> (\<exists>c\<in>set cs. js_prop c ''id'' = cardId) \<longrightarrow>
        removeImportedCard cardId s =
          (JArr (filter (\<lambda>c. js_prop c ''id'' \<noteq> cardId) cs),
           s\<lparr>memoryCache := (memoryCache s)\<lparr>importedCards := JArr (filter (\<lambda>c. js_prop c ''id'' \<noteq> cardId) cs)\<rparr>,
             scheduled := scheduled s @
               [(''botBrowser_importedCards'', JArr (filter (\<lambda>c. js_prop c ''id'' \<noteq> cardId) cs))]\<rparr>))"
proof -
  have absent: "js_filter (id_is_not cardId) xs = Inr ys \<Longrightarrow>
      (\<forall>b\<in>set xs. \<not> nullish b \<longrightarrow> js_prop b ''id'' \<noteq> cardId) \<Longrightarrow> ys = xs" for xs ys
  proof -
    assume f: "js_filter (id_is_not cardId) xs = Inr ys"
       and n: "\<forall>b\<in>set xs. \<not> nullish b \<longrightarrow> js_prop b ''id'' \<noteq> cardId"
    from js_filter_Inr [OF f]
    have all: "\<forall>x\<in>set xs. \<exists>b. id_is_not cardId x = Inr b"
      and ys: "ys = filter (\<lambda>x. id_is_not cardId x = Inr True) xs" by simp_all
    from all n have "\<forall>x\<in>set xs. id_is_not cardId x = Inr True"
      by (auto simp: id_is_not_simp split: if_splits)
    with ys show "ys = xs" by simp
  qed
  have present: "\<forall>b\<in>set xs. \<not> nullish b \<Longrightarrow>
      js_filter (id_is_not cardId) xs = Inr (filter (\<lambda>b. js_prop b ''id'' \<noteq> cardId) xs)" for xs
  proof -
    assume n: "\<forall>b\<in>set xs. \<not> nullish b"
    then have "\<forall>x\<in>set xs. \<exists>b. id_is_not cardId x = Inr b"
      by (simp add: id_is_not_simp)
    from js_filter_total [OF this]
    have "js_filter (id_is_not cardId) xs = Inr (filter (\<lambda>x. id_is_not cardId x = Inr True) xs)" .
    moreover have "filter (\<lambda>x. id_is_not cardId x = Inr True) xs = filter (\<lambda>b. js_prop b ''id'' \<noteq> cardId) xs"
      using n by (intro filter_cong) (auto simp: id_is_not_simp)
    ultimately show ?thesis by simp
  qed
  have b1: "loadBookmarks s = JArr bs \<longrightarrow>
      (\<forall>b\<in>set bs. \<not> nullish b \<longrightarrow> js_prop b ''id'' \<noteq> cardId) \<longrightarrow>
        removeBookmark cardId s = (JArr bs, s)"
    by (auto simp: removeBookmark_def removeBookmark_try_def Let_def split: sum.splits dest: absent)
  have b2: "loadBookmarks s = JArr bs \<longrightarrow>
      (\<forall>b\<in>set bs. \<not> nullish b) \<longrightarrow> (\<exists>b\<in>set bs. js_prop b ''id'' = cardId) \<longrightarrow>
        removeBookmark cardId s =
          (JArr (filter (\<lambda>b. js_prop b ''id'' \<noteq> cardId) bs),
           s\<lparr>memoryCache := (memoryCache s)\<lparr>bookmarks := JArr (filter (\<lambda>b. js_prop b ''id'' \<noteq> cardId) bs)\<rparr>,
             scheduled := scheduled s @
               [(''botBrowser_bookmarks'', JArr (filter (\<lambda>b. js_prop b ''id'' \<noteq> cardId) bs))]\<rparr>)"
    by (auto simp: removeBookmark_def removeBookmark_try_def Let_def present saveBookmarks_def
                   schedule_def filter_length_less)
  have c1: "loadImportedCards s = JArr cs \<longrightarrow>
      (\<forall>c\<in>set cs. \<not> nullish c \<longrightarrow> js_prop c ''id'' \<noteq> cardId) \<longrightarrow>
        removeImportedCard cardId s = (JArr cs, s)"
    by (auto simp: removeImportedCard_def removeImportedCard_try_def Let_def split: sum.splits dest: absent)
  have c2: "loadImportedCards s = JArr cs \<longrightarrow>
      (\<forall>c\<in>set cs. \<not> nullish c) \<longrightarrow> (\<exists>c\<in>set cs. js_prop c ''id'' = cardId) \<longrightarrow>
        removeImportedCard cardId s =
          (JArr (filter (\<lambda>c. js_prop c ''id'' \<noteq> cardId) cs),
           s\<lparr>memoryCache := (memoryCache s)\<lparr>importedCards := JArr (filter (\<lambda>c. js_prop c ''id'' \<noteq> cardId) cs)\<rparr>,
             scheduled := scheduled s @
               [(''botBrowser_importedCards'', JArr (filter (\<lambda>c. js_prop c ''id'' \<noteq> cardId) cs))]\<rparr>)"
    by (auto simp: removeImportedCard_def removeImportedCard_try_def Let_def present saveImportedCards_def
                   schedule_def filter_length_less)
  from b1 b2 c1 c2 show ?thesis by blast
qed

theorem remove_frame_witness:
  "primitive (JStr ''z'') \<and> primitive (JStr ''b'') \<and>
   loadBookmarks abc_storage = JArr [card_a, card_b, card_c] \<and>
   loadImportedCards abc_storage = JArr [card_a, card_b, card_c] \<and>
   \<not> nullish card_a \<and> \<not> nullish card_b \<and> \<not> nullish card_c \<and>
   js_prop card_a ''id'' \<noteq> JStr ''z'' \<and> js_prop card_b ''id'' \<noteq> JStr ''z'' \<and>
   js_prop card_c ''id'' \<noteq> JStr ''z'' \<and> js_prop card_b ''id'' = JStr ''b'' \<and>
   removeBookmark (JStr ''z'') abc_storage = (JArr [card_a, card_b, card_c], abc_storage) \<and>
   removeBookmark (JStr ''b'') abc_storage =
     (JArr [card_a, card_c],
      abc_storage\<lparr>memoryCache := (memoryCache abc_storage)\<lparr>bookmarks := JArr [card_a, card_c]\<rparr>,
                  scheduled := [(''botBrowser_bookmarks'', JArr [card_a, card_c])]\<rparr>) \<and>
   removeImportedCard (JStr ''z'') abc_storage = (JArr [card_a, card_b, card_c], abc_storage) \<and>
   removeImportedCard (JStr ''b'') abc_storage =
     (JArr [card_a, card_c],
      abc_storage\<lparr>memoryCache := (memoryCache abc_storage)\<lparr>importedCards := JArr [card_a, card_c]\<rparr>,
                  scheduled := [(''botBrowser_importedCards'', JArr [card_a, card_c])]\<rparr>)"
proof -
  have l: "loadBookmarks abc_storage = JArr [card_a, card_b, card_c]"
          "loadImportedCards abc_storage = JArr [card_a, card_b, card_c]"
    by (simp_all add: loadBookmarks_def loadImportedCards_def abc_storage_def js_or_def)
  have n: "\<forall>b\<in>set [card_a, card_b, card_c]. \<not> nullish b"
    by (simp add: nullish_def card_a_def card_b_def card_c_def)
  have z: "\<forall>b\<in>set [card_a, card_b, card_c]. \<not> nullish b \<longrightarrow> js_prop b ''id'' \<noteq> JStr ''z''"
    by (simp add: card_a_def card_b_def card_c_def)
  have b: "\<exists>b\<in>set [card_a, card_b, card_c]. js_prop b ''id'' = JStr ''b''"
    by (simp add: card_b_def)
  have f: "filter (\<lambda>b. js_prop b ''id'' \<noteq> JStr ''b'') [card_a, card_b, card_c] = [card_a, card_c]"
    by (simp add: card_a_def card_b_def card_c_def)
  have q: "scheduled abc_storage = []"
    by (simp add: abc_storage_def fresh_storage_def)
  from remove_frame [of "JStr ''z''" abc_storage "[card_a, card_b, card_c]" "[card_a, card_b, card_c]"]
       remove_frame [of "JStr ''b''" abc_storage "[card_a, card_b, card_c]" "[card_a, card_b, card_c]"]
       l n z b
  have frame: "removeBookmark (JStr ''z'') abc_storage = (JArr [card_a, card_b, card_c], abc_storage)"
    "removeBookmark (JStr ''b'') abc_storage =
     (JArr [card_a, card_c],
      abc_storage\<lparr>memoryCache := (memoryCache abc_storage)\<lparr>bookmarks := JArr [card_a, card_c]\<rparr>,
                  scheduled := [(''botBrowser_bookmarks'', JArr [card_a, card_c])]\<rparr>)"
    "removeImportedCard (JStr ''z'') abc_storage = (JArr [card_a, card_b, card_c], abc_storage)"
    "removeImportedCard (JStr ''b'') abc_storage =
     (JArr [card_a, card_c],
      abc_storage\<lparr>memoryCache := (memoryCache abc_storage)\<lparr>importedCards := JArr [card_a, card_c]\<rparr>,
                  scheduled := [(''botBrowser_importedCards'', JArr [card_a, card_c])]\<rparr>)"
    by (simp_all only: f q append_Nil simp_thms primitive.simps)
  from l frame show ?thesis
    by (simp add: nullish_def card_a_def card_b_def card_c_def)
qed

subsection \<open>The accessor that truncates\<close>

text \<open>
  C10, as amended. With the feature enabled and a configured maximum that is not negative,
  the effective maximum is \<open>maxRecent st\<close>: the configured maximum, or 10 when that is 0
  (or was never set). When the mirror's list is longer than the effective maximum,
  \<open>loadRecentlyViewed\<close> returns its first \<open>maxRecent st\<close> elements and stores them in the
  mirror; nothing else in the state changes: no other field of the mirror, no store, and
  no write is started.
\<close>

theorem loadRecentlyViewed_trims_mirror:
  "recentlyViewedEnabled st \<Longrightarrow> 0 \<le> maxRecentlyViewed st \<Longrightarrow>
   recentlyViewed (memoryCache s) = JArr xs \<Longrightarrow> maxRecent st < int (length xs) \<Longrightarrow>
     loadRecentlyViewed st s =
       (JArr (take (nat (maxRecent st)) xs),
        s\<lparr>memoryCache := (memoryCache s)\<lparr>recentlyViewed := JArr (take (nat (maxRecent st)) xs)\<rparr>\<rparr>) \<and>
     scheduled (snd (loadRecentlyViewed st s)) = scheduled s \<and>
     localforage (snd (loadRecentlyViewed st s)) = localforage s \<and>
     localStorage (snd (loadRecentlyViewed st s)) = localStorage s \<and>
     maxRecent st = (if maxRecentlyViewed st = 0 then 10 else maxRecentlyViewed st)"
  by (simp add: loadRecentlyViewed_def js_or_def js_slice0_def maxRecent_def Let_def)

theorem loadRecentlyViewed_trims_mirror_witness:
  "recentlyViewedEnabled \<lparr>persistentSearchEnabled = True, recentlyViewedEnabled = True, maxRecentlyViewed = 2\<rparr> \<and>
   recentlyViewed (memoryCache abc_storage) = JArr [card_a, card_b, card_c] \<and>
   loadRecentlyViewed \<lparr>persistentSearchEnabled = True, recentlyViewedEnabled = True, maxRecentlyViewed = 2\<rparr>
      abc_storage =
     (JArr [card_a, card_b],
      abc_storage\<lparr>memoryCache := (memoryCache abc_storage)\<lparr>recentlyViewed := JArr [card_a, card_b]\<rparr>\<rparr>)"
proof -
  have h: "recentlyViewed (memoryCache abc_storage) = JArr [card_a, card_b, card_c]"
    by (simp add: abc_storage_def)
  from loadRecentlyViewed_trims_mirror
         [of "\<lparr>persistentSearchEnabled = True, recentlyViewedEnabled = True, maxRecentlyViewed = 2\<rparr>"
             abc_storage "[card_a, card_b, card_c]"] h
  show ?thesis by (simp add: maxRecent_def)
qed

text \<open>
  The claim as it stands fails for the configured maximum 0: a list of three is longer
  than 0, and the mirror keeps all three.
\<close>

theorem loadRecentlyViewed_trims_mirror_counterexample:
  "recentlyViewedEnabled \<lparr>persistentSearchEnabled = True, recentlyViewedEnabled = True, maxRecentlyViewed = 0\<rparr> \<and>
   recentlyViewed (memoryCache abc_storage) = JArr [card_a, card_b, card_c] \<and>
   maxRecentlyViewed \<lparr>persistentSearchEnabled = True, recentlyViewedEnabled = True, maxRecentlyViewed = 0\<rparr>
     < int (length [card_a, card_b, card_c]) \<and>
   recentlyViewed (memoryCache (snd (loadRecentlyViewed
      \<lparr>persistentSearchEnabled = True, recentlyViewedEnabled = True, maxRecentlyViewed = 0\<rparr> abc_storage)))
     = JArr [card_a, card_b, card_c] \<and>
   JArr [card_a, card_b, card_c] \<noteq>
     JArr (take (nat (maxRecentlyViewed
        \<lparr>persistentSearchEnabled = True, recentlyViewedEnabled = True, maxRecentlyViewed = 0\<rparr>))
        [card_a, card_b, card_c])"
  by (simp add: loadRecentlyViewed_def js_or_def maxRecent_def abc_storage_def Let_def)

subsection \<open>Feature flags\<close>

text \<open>
  C8, as amended. \<open>addToRecentlyViewed\<close> with \<open>recentlyViewedEnabled\<close> off returns its
  input and leaves the state as it was. \<open>savePersistentSearch\<close> and \<open>loadPersistentSearch\<close>
  are gated by a flag of their own, \<open>persistentSearchEnabled\<close>: with it off the save
  changes nothing and the load returns \<open>null\<close>; with it on the load returns what was
  saved, whatever \<open>recentlyViewedEnabled\<close> is. \<open>trackImportedCard\<close> takes no settings: on
  a history of distinct records it puts every importable card in front and saves.
\<close>

theorem feature_flags:
  "(\<not> recentlyViewedEnabled st \<longrightarrow> addToRecentlyViewed st rv crd s = (rv, s)) \<and>
   (\<not> persistentSearchEnabled st \<longrightarrow>
      savePersistentSearch stringify st serviceName filters sortBy a1 a2 a3 a4 s = s \<and>
      loadPersistentSearch st serviceName s = JNull) \<and>
   (persistentSearchEnabled st \<longrightarrow>
      loadPersistentSearch st serviceName
         (savePersistentSearch stringify st serviceName filters sortBy a1 a2 a3 a4 s)
        = JObj [(''filters'', filters), (''sortBy'', sortBy),
                (''advancedFilters'', default_null a1), (''jannyAdvancedFilters'', default_null a2),
                (''ctAdvancedFilters'', default_null a3), (''wyvernAdvancedFilters'', default_null a4)]) \<and>
   (importable crd \<longrightarrow> loadImportedCards s = JArr cs \<longrightarrow> (\<forall>x\<in>set cs. is_object x) \<longrightarrow>
      distinct (map (\<lambda>c. js_prop c ''id'') cs) \<longrightarrow>
        (\<exists>y ys. trackImportedCard crd type s = (JArr (y # ys), saveImportedCards (JArr (y # ys)) s)
                \<and> js_prop y ''id'' = js_prop crd ''id''))"
proof -
  have g1: "\<not> recentlyViewedEnabled st \<longrightarrow> addToRecentlyViewed st rv crd s = (rv, s)"
    by (simp add: addToRecentlyViewed_def)
  have g2: "\<not> persistentSearchEnabled st \<longrightarrow>
      savePersistentSearch stringify st serviceName filters sortBy a1 a2 a3 a4 s = s \<and>
      loadPersistentSearch st serviceName s = JNull"
    by (simp add: savePersistentSearch_def loadPersistentSearch_def)
  have g3: "persistentSearchEnabled st \<longrightarrow>
      loadPersistentSearch st serviceName
         (savePersistentSearch stringify st serviceName filters sortBy a1 a2 a3 a4 s)
        = JObj [(''filters'', filters), (''sortBy'', sortBy),
                (''advancedFilters'', default_null a1), (''jannyAdvancedFilters'', default_null a2),
                (''ctAdvancedFilters'', default_null a3), (''wyvernAdvancedFilters'', default_null a4)]"
    by (simp add: savePersistentSearch_def loadPersistentSearch_def Let_def localStorage_setItem_def
                  map_of_put_same js_or_def)
  have g4: "importable crd \<longrightarrow> loadImportedCards s = JArr cs \<longrightarrow> (\<forall>x\<in>set cs. is_object x) \<longrightarrow>
      distinct (map (\<lambda>c. js_prop c ''id'') cs) \<longrightarrow>
        (\<exists>y ys. trackImportedCard crd type s = (JArr (y # ys), saveImportedCards (JArr (y # ys)) s)
                \<and> js_prop y ''id'' = js_prop crd ''id'')"
    using trackImportedCard_front by blast
  from g1 g2 g3 g4 show ?thesis by blast
qed

theorem feature_flags_witness:
  "\<not> recentlyViewedEnabled \<lparr>persistentSearchEnabled = False, recentlyViewedEnabled = False, maxRecentlyViewed = 10\<rparr> \<and>
   addToRecentlyViewed \<lparr>persistentSearchEnabled = False, recentlyViewedEnabled = False, maxRecentlyViewed = 10\<rparr>
      (JArr [card_a]) card_b fresh_storage = (JArr [card_a], fresh_storage) \<and>
   \<not> persistentSearchEnabled \<lparr>persistentSearchEnabled = False, recentlyViewedEnabled = False, maxRecentlyViewed = 10\<rparr> \<and>
   savePersistentSearch (\<lambda>v. [])
      \<lparr>persistentSearchEnabled = False, recentlyViewedEnabled = False, maxRecentlyViewed = 10\<rparr>
      ''chub'' (JObj []) (JStr ''new'') JUndefined JUndefined JUndefined JUndefined searched_storage
     = searched_storage \<and>
   loadPersistentSearch \<lparr>persistentSearchEnabled = False, recentlyViewedEnabled = False, maxRecentlyViewed = 10\<rparr>
      ''chub'' searched_storage = JNull \<and>
   persistentSearchEnabled \<lparr>persistentSearchEnabled = True, recentlyViewedEnabled = False, maxRecentlyViewed = 10\<rparr> \<and>
   loadPersistentSearch \<lparr>persistentSearchEnabled = True, recentlyViewedEnabled = False, maxRecentlyViewed = 10\<rparr>
      ''chub''
      (savePersistentSearch (\<lambda>v. [])
         \<lparr>persistentSearchEnabled = True, recentlyViewedEnabled = False, maxRecentlyViewed = 10\<rparr>
         ''chub'' (JObj []) (JStr ''new'') JUndefined JUndefined JUndefined JUndefined fresh_storage)
     = JObj [(''filters'', JObj []), (''sortBy'', JStr ''new''),
             (''advancedFilters'', JNull), (''jannyAdvancedFilters'', JNull),
             (''ctAdvancedFilters'', JNull), (''wyvernAdvancedFilters'', JNull)] \<and>
   importable card_b \<and>
   loadImportedCards abc_storage = JArr [card_a, card_b, card_c] \<and>
   is_object card_a \<and> is_object card_b \<and> is_object card_c \<and>
   distinct (map (\<lambda>c. js_prop c ''id'') [card_a, card_b, card_c]) \<and>
   (\<exists>y ys. trackImportedCard card_b (JStr ''character'') abc_storage
              = (JArr (y # ys), saveImportedCards (JArr (y # ys)) abc_storage)
           \<and> js_prop y ''id'' = js_prop card_b ''id'')"
proof -
  have i: "importable card_b"
    by (simp add: importable_def card_ok_def nullish_def card_b_def)
  have l: "loadImportedCards abc_storage = JArr [card_a, card_b, card_c]"
    by (simp add: loadImportedCards_def abc_storage_def js_or_def)
  have o: "\<forall>x\<in>set [card_a, card_b, card_c]. is_object x"
    by (simp add: card_a_def card_b_def card_c_def)
  have d: "distinct (map (\<lambda>c. js_prop c ''id'') [card_a, card_b, card_c])"
    by (simp add: card_a_def card_b_def card_c_def)
  from feature_flags [where st = "\<lparr>persistentSearchEnabled = False, recentlyViewedEnabled = False, maxRecentlyViewed = 10\<rparr>"
         and rv = "JArr [card_a]" and crd = card_b and s = fresh_storage]
       feature_flags [where st = "\<lparr>persistentSearchEnabled = False, recentlyViewedEnabled = False, maxRecentlyViewed = 10\<rparr>"
         and stringify = "\<lambda>v. []" and serviceName = "''chub''" and filters = "JObj []"
         and sortBy = "JStr ''new''" and ?a1.0 = JUndefined and ?a2.0 = JUndefined
         and ?a3.0 = JUndefined and ?a4.0 = JUndefined and s = searched_storage]
       feature_flags [where st = "\<lparr>persistentSearchEnabled = True, recentlyViewedEnabled = False, maxRecentlyViewed = 10\<rparr>"
         and stringify = "\<lambda>v. []" and serviceName = "''chub''" and filters = "JObj []"
         and sortBy = "JStr ''new''" and ?a1.0 = JUndefined and ?a2.0 = JUndefined
         and ?a3.0 = JUndefined and ?a4.0 = JUndefined and s = fresh_storage]
       feature_flags [where crd = card_b and s = abc_storage and cs = "[card_a, card_b, card_c]"
         and type = "JStr ''character''"]
       i l o d
  show ?thesis by (simp add: default_null_def)
qed

text \<open>
  The claim as it stands fails: with \<open>recentlyViewedEnabled\<close> off and
  \<open>persistentSearchEnabled\<close> on, \<open>loadPersistentSearch\<close> still returns the saved search.
\<close>

theorem feature_flags_counterexample:
  "recentlyViewedEnabled \<lparr>persistentSearchEnabled = True, recentlyViewedEnabled = False, maxRecentlyViewed = 10\<rparr>
     = False \<and>
   loadPersistentSearch \<lparr>persistentSearchEnabled = True, recentlyViewedEnabled = False, maxRecentlyViewed = 10\<rparr>
      ''chub'' searched_storage
     = JObj [(''filters'', JObj []), (''sortBy'', JStr ''new'')] \<and>
   loadPersistentSearch \<lparr>persistentSearchEnabled = True, recentlyViewedEnabled = False, maxRecentlyViewed = 10\<rparr>
      ''chub'' searched_storage \<noteq> JNull"
  by (simp add: loadPersistentSearch_def searched_storage_def js_or_def)

subsection \<open>Read after write\<close>

lemma addBookmark_read: "loadBookmarks (snd (addBookmark crd s)) = fst (addBookmark crd s)"
  by (auto simp: addBookmark_def addBookmark_try_def Let_def loadBookmarks_saved as_array_Inr
           split: sum.splits)

lemma removeBookmark_read: "loadBookmarks (snd (removeBookmark cardId s)) = fst (removeBookmark cardId s)"
  by (auto simp: removeBookmark_def removeBookmark_try_def Let_def loadBookmarks_saved as_array_Inr
           split: sum.splits dest: js_filter_same_length)

lemma trackImportedCard_read:
  "loadImportedCards (snd (trackImportedCard crd type s)) = fst (trackImportedCard crd type s)"
  by (auto simp: trackImportedCard_def trackImportedCard_try_def keep_500_take loadImportedCards_saved
           split: sum.splits option.splits)

lemma removeImportedCard_read:
  "loadImportedCards (snd (removeImportedCard cardId s)) = fst (removeImportedCard cardId s)"
  by (auto simp: removeImportedCard_def removeImportedCard_try_def Let_def loadImportedCards_saved
                 as_array_Inr
           split: sum.splits dest: js_filter_same_length)

lemma clearImportedCards_read:
  "loadImportedCards (snd (clearImportedCards s)) = fst (clearImportedCards s)"
  by (simp add: clearImportedCards_def loadImportedCards_def schedule_def js_or_def)

lemma addToRecentlyViewed_read:
  assumes en: "recentlyViewedEnabled st" and m: "0 \<le> maxRecentlyViewed st"
    and r: "addToRecentlyViewed_try st rv crd s = Inr r"
  shows "fst (loadRecentlyViewed st (snd (addToRecentlyViewed st rv crd s))) = fst (addToRecentlyViewed st rv crd s)"
proof -
  from m have m': "0 \<le> maxRecent st" using maxRecent_pos [of st] by simp
  from r obtain xs filtered entry where
    "rv = JArr xs" "js_filter (id_differs crd) xs = Inr filtered" "recent_entry crd = Inr entry"
    by (auto simp: addToRecentlyViewed_try_def as_array_Inr split: sum.splits)
  let ?kept = "take (nat (maxRecent st)) (entry # filtered)"
  let ?s' = "s\<lparr>memoryCache := (memoryCache s)\<lparr>recentlyViewed := JArr ?kept\<rparr>,
              scheduled := scheduled s @ [(''botBrowser_recentlyViewed'', JArr ?kept)]\<rparr>"
  have run: "addToRecentlyViewed st rv crd s = (JArr ?kept, ?s')"
    using en \<open>rv = JArr xs\<close> \<open>js_filter (id_differs crd) xs = Inr filtered\<close>
      \<open>recent_entry crd = Inr entry\<close> slice_when_longer [OF m', of "entry # filtered"]
    by (simp add: addToRecentlyViewed_def addToRecentlyViewed_try_def Let_def schedule_def
             del: take_Cons')
  have "int (length ?kept) \<le> maxRecent st" using m' by simp
  from loadRecentlyViewed_within [OF en _ this, of ?s'] run show ?thesis by simp
qed

lemma loadBookmarks_mirror: "memoryCache s' = memoryCache s \<Longrightarrow> loadBookmarks s' = loadBookmarks s"
  by (simp add: loadBookmarks_def)

lemma loadImportedCards_mirror:
  "memoryCache s' = memoryCache s \<Longrightarrow> loadImportedCards s' = loadImportedCards s"
  by (simp add: loadImportedCards_def)

lemma loadRecentlyViewed_mirror:
  "memoryCache s' = memoryCache s \<Longrightarrow> fst (loadRecentlyViewed st s') = fst (loadRecentlyViewed st s)"
  by (simp add: loadRecentlyViewed_def Let_def split: jsval.splits)

text \<open>
  C5, as amended. After \<open>addBookmark\<close>, \<open>removeBookmark\<close>, \<open>trackImportedCard\<close>,
  \<open>removeImportedCard\<close> and \<open>clearImportedCards\<close> the accessor of the collection returns
  what the call returned; after \<open>saveImportStats\<close> and \<open>saveSearchCollapsed\<close>, which
  return nothing, the accessor returns the value that was passed; after
  \<open>addToRecentlyViewed\<close> with the feature enabled, a maximum that is not negative and no
  exception in the \<open>try\<close> block, \<open>loadRecentlyViewed\<close> returns what the call returned.
  All of this holds after any number \<open>n\<close> of the writes in flight have run to their end,
  whether they succeed or fail.
\<close>

theorem read_after_write:
  "loadBookmarks ((settle stringify ^^ n) (snd (addBookmark crd s))) = fst (addBookmark crd s) \<and>
   loadBookmarks ((settle stringify ^^ n) (snd (removeBookmark cardId s))) = fst (removeBookmark cardId s) \<and>
   loadImportedCards ((settle stringify ^^ n) (snd (trackImportedCard crd type s)))
     = fst (trackImportedCard crd type s) \<and>
   loadImportedCards ((settle stringify ^^ n) (snd (removeImportedCard cardId s)))
     = fst (removeImportedCard cardId s) \<and>
   loadImportedCards ((settle stringify ^^ n) (snd (clearImportedCards s))) = fst (clearImportedCards s) \<and>
   loadImportStats ((settle stringify ^^ n) (snd (saveImportStats stats s))) = stats \<and>
   loadSearchCollapsed ((settle stringify ^^ n) (saveSearchCollapsed collapsed s)) = collapsed \<and>
   (recentlyViewedEnabled st \<longrightarrow> 0 \<le> maxRecentlyViewed st \<longrightarrow>
      addToRecentlyViewed_try st rv crd s = Inr r \<longrightarrow>
        fst (loadRecentlyViewed st ((settle stringify ^^ n) (snd (addToRecentlyViewed st rv crd s))))
          = fst (addToRecentlyViewed st rv crd s))"
proof -
  have a: "loadBookmarks ((settle stringify ^^ n) (snd (addBookmark crd s))) = fst (addBookmark crd s)"
    using loadBookmarks_mirror [OF settle_many_mirror] by (simp add: addBookmark_read)
  have b: "loadBookmarks ((settle stringify ^^ n) (snd (removeBookmark cardId s))) = fst (removeBookmark cardId s)"
    using loadBookmarks_mirror [OF settle_many_mirror] by (simp add: removeBookmark_read)
  have c: "loadImportedCards ((settle stringify ^^ n) (snd (trackImportedCard crd type s)))
     = fst (trackImportedCard crd type s)"
    using loadImportedCards_mirror [OF settle_many_mirror] by (simp add: trackImportedCard_read)
  have d: "loadImportedCards ((settle stringify ^^ n) (snd (removeImportedCard cardId s)))
     = fst (removeImportedCard cardId s)"
    using loadImportedCards_mirror [OF settle_many_mirror] by (simp add: removeImportedCard_read)
  have e: "loadImportedCards ((settle stringify ^^ n) (snd (clearImportedCards s))) = fst (clearImportedCards s)"
    using loadImportedCards_mirror [OF settle_many_mirror] by (simp add: clearImportedCards_read)
  have f: "loadImportStats ((settle stringify ^^ n) (snd (saveImportStats stats s))) = stats"
    by (simp add: loadImportStats_def settle_many_mirror saveImportStats_def schedule_def)
  have g: "loadSearchCollapsed ((settle stringify ^^ n) (saveSearchCollapsed collapsed s)) = collapsed"
    by (simp add: loadSearchCollapsed_def settle_many_mirror saveSearchCollapsed_def schedule_def)
  have h: "recentlyViewedEnabled st \<longrightarrow> 0 \<le> maxRecentlyViewed st \<longrightarrow>
      addToRecentlyViewed_try st rv crd s = Inr r \<longrightarrow>
        fst (loadRecentlyViewed st ((settle stringify ^^ n) (snd (addToRecentlyViewed st rv crd s))))
          = fst (addToRecentlyViewed st rv crd s)"
    using loadRecentlyViewed_mirror [OF settle_many_mirror] by (simp add: addToRecentlyViewed_read)
  from a b c d e f g h show ?thesis by blast
qed

theorem read_after_write_witness:
  "recentlyViewedEnabled \<lparr>persistentSearchEnabled = True, recentlyViewedEnabled = True, maxRecentlyViewed = 2\<rparr> \<and>
   0 \<le> maxRecentlyViewed \<lparr>persistentSearchEnabled = True, recentlyViewedEnabled = True, maxRecentlyViewed = 2\<rparr> \<and>
   (\<exists>r. addToRecentlyViewed_try
          \<lparr>persistentSearchEnabled = True, recentlyViewedEnabled = True, maxRecentlyViewed = 2\<rparr>
          (JArr [card_a, card_b]) card_c fresh_storage = Inr r) \<and>
   fst (loadRecentlyViewed \<lparr>persistentSearchEnabled = True, recentlyViewedEnabled = True, maxRecentlyViewed = 2\<rparr>
          ((settle (\<lambda>v. []) ^^ 1)
             (snd (addToRecentlyViewed
                     \<lparr>persistentSearchEnabled = True, recentlyViewedEnabled = True, maxRecentlyViewed = 2\<rparr>
                     (JArr [card_a, card_b]) card_c fresh_storage))))
     = fst (addToRecentlyViewed
              \<lparr>persistentSearchEnabled = True, recentlyViewedEnabled = True, maxRecentlyViewed = 2\<rparr>
              (JArr [card_a, card_b]) card_c fresh_storage)"
proof -
  let ?st = "\<lparr>persistentSearchEnabled = True, recentlyViewedEnabled = True, maxRecentlyViewed = 2\<rparr>"
  have "\<not> nullish card_c" "\<forall>x\<in>set [card_a, card_b]. \<not> nullish x"
    by (simp_all add: nullish_def card_a_def card_b_def card_c_def)
  from addToRecentlyViewed_try_ok [OF this]
  obtain r where r: "addToRecentlyViewed_try ?st (JArr [card_a, card_b]) card_c fresh_storage = Inr r"
    by blast
  from read_after_write [where stringify = "\<lambda>v. []" and n = 1 and crd = card_c and s = fresh_storage
                            and st = ?st and rv = "JArr [card_a, card_b]" and r = r] r
  show ?thesis by simp
qed

text \<open>
  The claim as it stands fails twice. With the feature disabled \<open>addToRecentlyViewed\<close>
  returns the collection it was given while \<open>loadRecentlyViewed\<close> returns the empty
  array; and \<open>saveImportStats\<close> returns \<open>undefined\<close>, not the statistics.
\<close>

theorem read_after_write_counterexample:
  "fst (addToRecentlyViewed
          \<lparr>persistentSearchEnabled = True, recentlyViewedEnabled = False, maxRecentlyViewed = 10\<rparr>
          (JArr [card_a]) card_b fresh_storage) = JArr [card_a] \<and>
   fst (loadRecentlyViewed
          \<lparr>persistentSearchEnabled = True, recentlyViewedEnabled = False, maxRecentlyViewed = 10\<rparr>
          (snd (addToRecentlyViewed
                  \<lparr>persistentSearchEnabled = True, recentlyViewedEnabled = False, maxRecentlyViewed = 10\<rparr>
                  (JArr [card_a]) card_b fresh_storage))) = JArr [] \<and>
   fst (saveImportStats (JObj [(''totalCharacters'', JNum 1)]) fresh_storage) = JUndefined \<and>
   loadImportStats (snd (saveImportStats (JObj [(''totalCharacters'', JNum 1)]) fresh_storage))
     = JObj [(''totalCharacters'', JNum 1)]"
  by (simp add: addToRecentlyViewed_def loadRecentlyViewed_def saveImportStats_def loadImportStats_def
                schedule_def)

subsection \<open>Failure containment\<close>

lemma addToRecentlyViewed_flag:
  "addToRecentlyViewed st rv crd (s\<lparr>localforage_fails := b\<rparr>)
     = (fst (addToRecentlyViewed st rv crd s), (snd (addToRecentlyViewed st rv crd s))\<lparr>localforage_fails := b\<rparr>)"
  by (simp add: addToRecentlyViewed_def addToRecentlyViewed_try_def Let_def schedule_def
           split: sum.splits)

lemma addBookmark_flag:
  "addBookmark crd (s\<lparr>localforage_fails := b\<rparr>)
     = (fst (addBookmark crd s), (snd (addBookmark crd s))\<lparr>localforage_fails := b\<rparr>)"
  by (simp add: addBookmark_def addBookmark_try_def Let_def loadBookmarks_def saveBookmarks_def
                schedule_def split: sum.splits)

lemma removeBookmark_flag:
  "removeBookmark cardId (s\<lparr>localforage_fails := b\<rparr>)
     = (fst (removeBookmark cardId s), (snd (removeBookmark cardId s))\<lparr>localforage_fails := b\<rparr>)"
  by (simp add: removeBookmark_def removeBookmark_try_def Let_def loadBookmarks_def saveBookmarks_def
                schedule_def split: sum.splits)

lemma trackImportedCard_flag:
  "trackImportedCard crd type (s\<lparr>localforage_fails := b\<rparr>)
     = (fst (trackImportedCard crd type s), (snd (trackImportedCard crd type s))\<lparr>localforage_fails := b\<rparr>)"
  by (simp add: trackImportedCard_def trackImportedCard_try_def keep_500_take loadImportedCards_def
                saveImportedCards_def schedule_def split: sum.splits option.splits)

lemma removeImportedCard_flag:
  "removeImportedCard cardId (s\<lparr>localforage_fails := b\<rparr>)
     = (fst (removeImportedCard cardId s), (snd (removeImportedCard cardId s))\<lparr>localforage_fails := b\<rparr>)"
  by (simp add: removeImportedCard_def removeImportedCard_try_def Let_def loadImportedCards_def
                saveImportedCards_def schedule_def split: sum.splits)

lemma addToRecentlyViewed_try_flag:
  "addToRecentlyViewed_try st rv crd s = Inr r \<Longrightarrow>
     \<exists>r'. addToRecentlyViewed_try st rv crd (s\<lparr>localforage_fails := b\<rparr>) = Inr r'"
  by (auto simp: addToRecentlyViewed_try_def Let_def split: sum.splits)

text \<open>
  C6. When the \<open>try\<close> block of a collection mutation throws, the mutation returns the
  collection as it was (the parameter for \<open>addToRecentlyViewed\<close>, the mirror for the
  other four) and leaves the state as it was. A localForage store that throws changes
  no return value, and the accessor still returns that value after any number of the
  writes in flight have run to their end.
\<close>

theorem failure_containment:
  "(recentlyViewedEnabled st \<longrightarrow> addToRecentlyViewed_try st rv crd s = Inl (e, v) \<longrightarrow>
      addToRecentlyViewed st rv crd s = (rv, s)) \<and>
   (addBookmark_try crd s = Inl e \<longrightarrow> addBookmark crd s = (loadBookmarks s, s)) \<and>
   (removeBookmark_try cardId s = Inl e \<longrightarrow> removeBookmark cardId s = (loadBookmarks s, s)) \<and>
   (trackImportedCard_try crd type s = Inl e \<longrightarrow>
      trackImportedCard crd type s = (loadImportedCards s, s)) \<and>
   (removeImportedCard_try cardId s = Inl e \<longrightarrow>
      removeImportedCard cardId s = (loadImportedCards s, s)) \<and>
   fst (addToRecentlyViewed st rv crd (s\<lparr>localforage_fails := True\<rparr>))
     = fst (addToRecentlyViewed st rv crd s) \<and>
   fst (addBookmark crd (s\<lparr>localforage_fails := True\<rparr>)) = fst (addBookmark crd s) \<and>
   fst (removeBookmark cardId (s\<lparr>localforage_fails := True\<rparr>)) = fst (removeBookmark cardId s) \<and>
   fst (trackImportedCard crd type (s\<lparr>localforage_fails := True\<rparr>)) = fst (trackImportedCard crd type s) \<and>
   fst (removeImportedCard cardId (s\<lparr>localforage_fails := True\<rparr>)) = fst (removeImportedCard cardId s) \<and>
   loadBookmarks ((settle stringify ^^ n) (snd (addBookmark crd (s\<lparr>localforage_fails := True\<rparr>))))
     = fst (addBookmark crd s) \<and>
   loadBookmarks ((settle stringify ^^ n) (snd (removeBookmark cardId (s\<lparr>localforage_fails := True\<rparr>))))
     = fst (removeBookmark cardId s) \<and>
   loadImportedCards ((settle stringify ^^ n) (snd (trackImportedCard crd type (s\<lparr>localforage_fails := True\<rparr>))))
     = fst (trackImportedCard crd type s) \<and>
   loadImportedCards ((settle stringify ^^ n) (snd (removeImportedCard cardId (s\<lparr>localforage_fails := True\<rparr>))))
     = fst (removeImportedCard cardId s) \<and>
   (recentlyViewedEnabled st \<longrightarrow> 0 \<le> maxRecentlyViewed st \<longrightarrow>
      addToRecentlyViewed_try st rv crd s = Inr r \<longrightarrow>
        fst (loadRecentlyViewed st
               ((settle stringify ^^ n) (snd (addToRecentlyViewed st rv crd (s\<lparr>localforage_fails := True\<rparr>)))))
          = fst (addToRecentlyViewed st rv crd s))"
proof -
  let ?f = "s\<lparr>localforage_fails := True\<rparr>"
  have mir: "memoryCache ((settle stringify ^^ n) x) = memoryCache x" for x
    by (rule settle_many_mirror)
  have x1: "recentlyViewedEnabled st \<longrightarrow> addToRecentlyViewed_try st rv crd s = Inl (e, v) \<longrightarrow>
      addToRecentlyViewed st rv crd s = (rv, s)"
    by (auto simp: addToRecentlyViewed_def dest: addToRecentlyViewed_try_Inl)
  have x2: "addBookmark_try crd s = Inl e \<longrightarrow> addBookmark crd s = (loadBookmarks s, s)"
    by (simp add: addBookmark_def)
  have x3: "removeBookmark_try cardId s = Inl e \<longrightarrow> removeBookmark cardId s = (loadBookmarks s, s)"
    by (simp add: removeBookmark_def)
  have x4: "trackImportedCard_try crd type s = Inl e \<longrightarrow>
      trackImportedCard crd type s = (loadImportedCards s, s)"
    by (simp add: trackImportedCard_def)
  have x5: "removeImportedCard_try cardId s = Inl e \<longrightarrow>
      removeImportedCard cardId s = (loadImportedCards s, s)"
    by (simp add: removeImportedCard_def)
  have f1: "fst (addToRecentlyViewed st rv crd ?f) = fst (addToRecentlyViewed st rv crd s)"
    by (simp add: addToRecentlyViewed_flag)
  have f2: "fst (addBookmark crd ?f) = fst (addBookmark crd s)"
    by (simp add: addBookmark_flag)
  have f3: "fst (removeBookmark cardId ?f) = fst (removeBookmark cardId s)"
    by (simp add: removeBookmark_flag)
  have f4: "fst (trackImportedCard crd type ?f) = fst (trackImportedCard crd type s)"
    by (simp add: trackImportedCard_flag)
  have f5: "fst (removeImportedCard cardId ?f) = fst (removeImportedCard cardId s)"
    by (simp add: removeImportedCard_flag)
  have a2: "loadBookmarks ((settle stringify ^^ n) (snd (addBookmark crd ?f))) = fst (addBookmark crd s)"
    using loadBookmarks_mirror [OF mir]
    by (simp only: addBookmark_read f2)
  have a3: "loadBookmarks ((settle stringify ^^ n) (snd (removeBookmark cardId ?f))) = fst (removeBookmark cardId s)"
    using loadBookmarks_mirror [OF mir]
    by (simp only: removeBookmark_read f3)
  have a4: "loadImportedCards ((settle stringify ^^ n) (snd (trackImportedCard crd type ?f)))
             = fst (trackImportedCard crd type s)"
    using loadImportedCards_mirror [OF mir]
    by (simp only: trackImportedCard_read f4)
  have a5: "loadImportedCards ((settle stringify ^^ n) (snd (removeImportedCard cardId ?f)))
             = fst (removeImportedCard cardId s)"
    using loadImportedCards_mirror [OF mir]
    by (simp only: removeImportedCard_read f5)
  have a1: "recentlyViewedEnabled st \<longrightarrow> 0 \<le> maxRecentlyViewed st \<longrightarrow>
      addToRecentlyViewed_try st rv crd s = Inr r \<longrightarrow>
        fst (loadRecentlyViewed st ((settle stringify ^^ n) (snd (addToRecentlyViewed st rv crd ?f))))
          = fst (addToRecentlyViewed st rv crd s)"
  proof (intro impI)
    assume en: "recentlyViewedEnabled st" and m: "0 \<le> maxRecentlyViewed st"
      and r: "addToRecentlyViewed_try st rv crd s = Inr r"
    from addToRecentlyViewed_try_flag [OF r, of True] obtain r' where
      r': "addToRecentlyViewed_try st rv crd ?f = Inr r'" by blast
    from loadRecentlyViewed_mirror [OF mir, of st "snd (addToRecentlyViewed st rv crd ?f)"]
         addToRecentlyViewed_read [OF en m r'] f1
    show "fst (loadRecentlyViewed st ((settle stringify ^^ n) (snd (addToRecentlyViewed st rv crd ?f))))
          = fst (addToRecentlyViewed st rv crd s)" by simp
  qed
  from x1 x2 x3 x4 x5 f1 f2 f3 f4 f5 a1 a2 a3 a4 a5 show ?thesis by blast
qed

theorem failure_containment_witness:
  "recentlyViewedEnabled \<lparr>persistentSearchEnabled = True, recentlyViewedEnabled = True, maxRecentlyViewed = 10\<rparr> \<and>
   addToRecentlyViewed_try
      \<lparr>persistentSearchEnabled = True, recentlyViewedEnabled = True, maxRecentlyViewed = 10\<rparr>
      (JArr [card_a]) JNull damaged_storage = Inl (TypeError, JArr [card_a]) \<and>
   addToRecentlyViewed
      \<lparr>persistentSearchEnabled = True, recentlyViewedEnabled = True, maxRecentlyViewed = 10\<rparr>
      (JArr [card_a]) JNull damaged_storage = (JArr [card_a], damaged_storage) \<and>
   addBookmark_try JNull damaged_storage = Inl TypeError \<and>
   addBookmark JNull damaged_storage = (JArr [card_a, JNull], damaged_storage) \<and>
   removeBookmark_try (JStr ''a'') damaged_storage = Inl TypeError \<and>
   removeBookmark (JStr ''a'') damaged_storage = (JArr [card_a, JNull], damaged_storage) \<and>
   trackImportedCard_try JNull (JStr ''character'') damaged_storage = Inl TypeError \<and>
   trackImportedCard JNull (JStr ''character'') damaged_storage = (JArr [card_a, JNull], damaged_storage) \<and>
   removeImportedCard_try (JStr ''a'') damaged_storage = Inl TypeError \<and>
   removeImportedCard (JStr ''a'') damaged_storage = (JArr [card_a, JNull], damaged_storage) \<and>
   (\<exists>r. addToRecentlyViewed_try
          \<lparr>persistentSearchEnabled = True, recentlyViewedEnabled = True, maxRecentlyViewed = 10\<rparr>
          (JArr [card_a]) card_b fresh_storage = Inr r) \<and>
   fst (loadRecentlyViewed
          \<lparr>persistentSearchEnabled = True, recentlyViewedEnabled = True, maxRecentlyViewed = 10\<rparr>
          ((settle (\<lambda>v. []) ^^ 2)
             (snd (addToRecentlyViewed
                     \<lparr>persistentSearchEnabled = True, recentlyViewedEnabled = True, maxRecentlyViewed = 10\<rparr>
                     (JArr [card_a]) card_b (fresh_storage\<lparr>localforage_fails := True\<rparr>)))))
     = fst (addToRecentlyViewed
              \<lparr>persistentSearchEnabled = True, recentlyViewedEnabled = True, maxRecentlyViewed = 10\<rparr>
              (JArr [card_a]) card_b fresh_storage)"
proof -
  let ?st = "\<lparr>persistentSearchEnabled = True, recentlyViewedEnabled = True, maxRecentlyViewed = 10\<rparr>"
  have l: "loadBookmarks damaged_storage = JArr [card_a, JNull]"
          "loadImportedCards damaged_storage = JArr [card_a, JNull]"
    by (simp_all add: loadBookmarks_def loadImportedCards_def damaged_storage_def js_or_def)
  have h1: "addToRecentlyViewed_try ?st (JArr [card_a]) JNull damaged_storage = Inl (TypeError, JArr [card_a])"
    by (simp add: addToRecentlyViewed_try_def id_differs_simp nullish_def)
  have h2: "addBookmark_try JNull damaged_storage = Inl TypeError"
    by (simp add: addBookmark_try_def l id_equals_simp nullish_def)
  have h3: "removeBookmark_try (JStr ''a'') damaged_storage = Inl TypeError"
    by (simp add: removeBookmark_try_def l id_is_not_simp nullish_def card_a_def)
  have h4: "trackImportedCard_try JNull (JStr ''character'') damaged_storage = Inl TypeError"
    by (simp add: trackImportedCard_try_def l id_equals_simp nullish_def)
  have h5: "removeImportedCard_try (JStr ''a'') damaged_storage = Inl TypeError"
    by (simp add: removeImportedCard_try_def l id_is_not_simp nullish_def card_a_def)
  have "\<not> nullish card_b" "\<forall>x\<in>set [card_a]. \<not> nullish x"
    by (simp_all add: nullish_def card_a_def card_b_def)
  from addToRecentlyViewed_try_ok [OF this]
  obtain r where r: "addToRecentlyViewed_try ?st (JArr [card_a]) card_b fresh_storage = Inr r"
    by blast
  from failure_containment [where st = ?st and rv = "JArr [card_a]" and crd = JNull
          and s = damaged_storage and e = TypeError and v = "JArr [card_a]"
          and cardId = "JStr ''a''" and type = "JStr ''character''"]
       failure_containment [where st = ?st and rv = "JArr [card_a]" and crd = card_b
          and s = fresh_storage and r = r and stringify = "\<lambda>v. []" and n = 2]
       h1 h2 h3 h4 h5 r l
  show ?thesis by simp
qed

end
